theory Spec2Isabelle
  imports Complex_Main "HOL-Library.AList"
begin

section \<open>Federated training of RecVAE: clients, server, restoration attack\<close>

text \<open>
  A shallow embedding of \<^verbatim>\<open>src/recvae/federated_train.py\<close>. Tensor entries are real
  numbers (exact arithmetic). Python exceptions are values of the type \<open>error\<close>; a function
  that may raise returns \<open>error + 'a\<close> with \<open>Inl\<close> for the exception.
\<close>

datatype error =
    KeyError | IndexError | AttributeError | ValueError | TypeError | AxisError
  | RuntimeError | RankNotModelled | ZeroDivisionError

text \<open>A loop whose body may raise, and a list built by a function that may raise.\<close>

fun fold_err :: "('a \<Rightarrow> 's \<Rightarrow> error + 's) \<Rightarrow> 'a list \<Rightarrow> 's \<Rightarrow> error + 's" where
  "fold_err f [] s = Inr s"
| "fold_err f (x # xs) s = (case f x s of Inl e \<Rightarrow> Inl e | Inr s' \<Rightarrow> fold_err f xs s')"

fun map_err :: "('a \<Rightarrow> error + 'b) \<Rightarrow> 'a list \<Rightarrow> error + 'b list" where
  "map_err f [] = Inr []"
| "map_err f (x # xs) =
     (case f x of Inl e \<Rightarrow> Inl e
      | Inr y \<Rightarrow> (case map_err f xs of Inl e \<Rightarrow> Inl e | Inr ys \<Rightarrow> Inr (y # ys)))"

subsection \<open>Tensors and gradient mappings\<close>

text \<open>
  A tensor is its shape and its entries in row-major order. A Python \<^verbatim>\<open>dict\<close> is an
  association list in insertion order: \<open>map_of\<close> reads a key, \<open>AList.update\<close> assigns
  to a key (in place when the key is present, at the end otherwise). A gradient mapping
  \<^verbatim>\<open>clients_grads\<close> maps a user id to the mapping from parameter names to that user's
  gradient tensors; the tensors of different users and names are different objects
  (\<^verbatim>\<open>Clients.train\<close> clones each one, line 103), so an in-place operation on one of them
  is an assignment to its key.
\<close>

datatype tensor = Tensor (shape: "nat list") (entries: "real list")

type_synonym grads = "(string \<times> tensor) list"

type_synonym clients_grads = "(nat \<times> grads) list"

definition dict_get :: "('k \<times> 'v) list \<Rightarrow> 'k \<Rightarrow> error + 'v" where
  "dict_get d k = (case map_of d k of None \<Rightarrow> Inl KeyError | Some v \<Rightarrow> Inr v)"

definition tadd :: "tensor \<Rightarrow> tensor \<Rightarrow> tensor" where
  "tadd a b = Tensor (shape a) (map2 (+) (entries a) (entries b))"

definition tsub :: "tensor \<Rightarrow> tensor \<Rightarrow> tensor" where
  "tsub a b = Tensor (shape a) (map2 (-) (entries a) (entries b))"

definition tdiv :: "tensor \<Rightarrow> real \<Rightarrow> tensor" where
  "tdiv a c = Tensor (shape a) (map (\<lambda>x. x / c) (entries a))"

text \<open>
  The in-place addition \<^verbatim>\<open>a += b\<close> of two tensors. Torch also accepts a \<open>b\<close> of another
  shape when it can be broadcast to the shape of \<open>a\<close>; that case is not modelled and is
  reported like the shapes torch rejects.
\<close>

definition iadd :: "tensor \<Rightarrow> tensor \<Rightarrow> error + tensor" where
  "iadd a b = (if shape b = shape a then Inr (tadd a b) else Inl RuntimeError)"

text \<open>
  The rows of a two-dimensional array, and \<^verbatim>\<open>.T\<close>: the transpose of a two-dimensional
  array and the identity below two dimensions.
\<close>

definition rows :: "tensor \<Rightarrow> real list list" where
  "rows t = (case shape t of
       [r, c] \<Rightarrow> map (\<lambda>i. take c (drop (i * c) (entries t))) [0..<r]
     | _ \<Rightarrow> [])"

definition np_T :: "tensor \<Rightarrow> tensor" where
  "np_T t = (case shape t of
       [r, c] \<Rightarrow> Tensor [c, r] (concat (map (\<lambda>j. map (\<lambda>i. entries t ! (i * c + j)) [0..<r]) [0..<c]))
     | _ \<Rightarrow> t)"

text \<open>
  Indexing a one-dimensional numpy array with an integer: a negative index counts from
  the end.
\<close>

definition np_index :: "'a list \<Rightarrow> int \<Rightarrow> error + 'a" where
  "np_index xs j =
     (let n = int (length xs)
      in if 0 \<le> j \<and> j < n then Inr (xs ! nat j)
         else if - n \<le> j \<and> j < 0 then Inr (xs ! nat (j + n))
         else Inl IndexError)"

subsection \<open>Clients: perturbation and communication cost\<close>

text \<open>
  What \<^verbatim>\<open>Clients\<close> takes from outside this file: \<^verbatim>\<open>get_size\<close> and \<^verbatim>\<open>sample_neighbor\<close>
  of \<^verbatim>\<open>utils\<close> (\<^verbatim>\<open>get_size\<close> once for tensors and once for a state dict), the random
  numbers of \<^verbatim>\<open>torch.randn_like\<close> (\<open>randn k j\<close> is entry \<open>j\<close> of the \<open>k\<close>-th tensor
  drawn), and the gradient the model computes for one user from a state dict and a
  dropout probability (forward pass, loss and \<^verbatim>\<open>backward\<close>).
\<close>

record env =
  get_size :: "tensor \<Rightarrow> real"
  get_size_state :: "grads \<Rightarrow> real"
  sample_neighbor :: "nat \<Rightarrow> int \<Rightarrow> error + int list list"
  randn :: "nat \<Rightarrow> nat \<Rightarrow> real"
  local_grad :: "grads \<Rightarrow> nat \<Rightarrow> real \<Rightarrow> grads"

text \<open>
  The fields of \<^verbatim>\<open>Clients\<close> used below; \<open>cl_n_items\<close> is \<^verbatim>\<open>Clients.n_items\<close> and
  \<open>communication_cost\<close> is the ledger.
\<close>

record clients =
  cl_n_items :: nat
  protect_module_name :: "string list"
  xi :: int
  perturb_method :: string
  communication_cost :: "real list"

definition randn_like :: "(nat \<Rightarrow> nat \<Rightarrow> real) \<Rightarrow> nat \<Rightarrow> tensor \<Rightarrow> tensor" where
  "randn_like rnd k t = Tensor (shape t) (map (rnd k) [0..<length (entries t)])"

text \<open>
  The body of the innermost loop of \<^verbatim>\<open>MPC_perturb\<close> (lines 61 to 64) for the sender
  \<open>uid\<close>, the recipient \<open>suid\<close> and the parameter \<open>name\<close>. The state is the gradient
  mapping, the cost so far and the number of tensors drawn so far.
\<close>

definition send_share ::
  "env \<Rightarrow> nat \<Rightarrow> nat \<Rightarrow> string \<Rightarrow> clients_grads \<times> real \<times> nat
     \<Rightarrow> error + clients_grads \<times> real \<times> nat" where
  "send_share ev uid suid name st =
     (let (cg, cost, k) = st
      in case dict_get cg uid of Inl e \<Rightarrow> Inl e | Inr gu \<Rightarrow>
         (case dict_get gu name of Inl e \<Rightarrow> Inl e | Inr grads \<Rightarrow>
         (let share = randn_like (randn ev) k grads;
              cg = AList.update uid (AList.update name (tsub grads share) gu) cg
          in case dict_get cg suid of Inl e \<Rightarrow> Inl e | Inr grads_to_send \<Rightarrow>
             (case dict_get grads_to_send name of Inl e \<Rightarrow> Inl e | Inr r \<Rightarrow>
             (case iadd r share of Inl e \<Rightarrow> Inl e | Inr r' \<Rightarrow>
                Inr (AList.update suid (AList.update name r' grads_to_send) cg,
                     cost + get_size ev share, k + 1))))))"

text \<open>The loop over the parameters of \<open>uid\<close> for one recipient (lines 59 and 60).\<close>

definition share_to ::
  "env \<Rightarrow> nat \<Rightarrow> nat \<Rightarrow> clients_grads \<times> real \<times> nat \<Rightarrow> error + clients_grads \<times> real \<times> nat" where
  "share_to ev uid suid st =
     (case dict_get (fst st) suid of Inl e \<Rightarrow> Inl e | Inr grads_to_send \<Rightarrow>
      (case dict_get (fst st) uid of Inl e \<Rightarrow> Inl e | Inr gu \<Rightarrow>
         fold_err (send_share ev uid suid) (map fst gu) st))"

text \<open>
  \<^verbatim>\<open>Clients.MPC_perturb\<close> (line 53). \<^verbatim>\<open>uids[clients_idx]\<close> indexes the array of user ids
  with every entry of the neighbor assignment at once.
\<close>

definition MPC_perturb :: "env \<Rightarrow> int \<Rightarrow> clients_grads \<Rightarrow> error + clients_grads \<times> real" where
  "MPC_perturb ev xi_val clients_grads =
     (let uids = map fst clients_grads
      in case sample_neighbor ev (length uids) xi_val of Inl e \<Rightarrow> Inl e | Inr clients_idx \<Rightarrow>
         (case map_err (map_err (np_index uids)) clients_idx of Inl e \<Rightarrow> Inl e
          | Inr clients_to_send \<Rightarrow>
         (case fold_err
                 (\<lambda>(i, uid) st.
                     if i < length clients_to_send
                     then fold_err (share_to ev uid) (clients_to_send ! i) st
                     else Inl IndexError)
                 (enumerate 0 uids) (clients_grads, 0, 0) of
            Inl e \<Rightarrow> Inl e
          | Inr (cg, cost, k) \<Rightarrow> Inr (cg, cost / 2 ^ 20))))"

text \<open>
  \<^verbatim>\<open>torch.sum(grad_mask).item()\<close> of the compressed branch of
  \<^verbatim>\<open>count_update_communication_cost\<close> (lines 74 to 76): the number of rows, of columns or
  of entries that are not zero.
\<close>

definition grad_mask_sum :: "nat \<Rightarrow> tensor \<Rightarrow> real" where
  "grad_mask_sum n grads =
     (case shape grads of
        [r, c] \<Rightarrow>
          if r = n then real (length (filter (\<lambda>row. sum_list row \<noteq> 0) (rows grads)))
          else real (length (filter (\<lambda>col. sum_list col \<noteq> 0) (rows (np_T grads))))
      | _ \<Rightarrow> real (length (filter (\<lambda>x. x \<noteq> 0) (entries grads))))"

text \<open>\<^verbatim>\<open>Clients.count_update_communication_cost\<close> (line 68), with its local \<^verbatim>\<open>compressed = False\<close>.\<close>

definition count_update_communication_cost :: "env \<Rightarrow> clients \<Rightarrow> clients_grads \<Rightarrow> real" where
  "count_update_communication_cost ev c clients_grads =
     (let compressed = False
      in fold (\<lambda>(uid, grads_dict) cost.
                 fold (\<lambda>(name, grads) cost.
                         (let para_percent =
                                (if compressed \<and> name \<in> set (protect_module_name c)
                                 then grad_mask_sum (cl_n_items c) grads / real (cl_n_items c)
                                 else 1)
                          in cost + get_size ev grads * para_percent))
                      grads_dict cost)
              clients_grads 0
           / 2 ^ 20)"

text \<open>
  \<^verbatim>\<open>Clients.train\<close> (line 82). The result is the \<^verbatim>\<open>Clients\<close> object after the call (its
  ledger is changed before anything can raise) and either the exception or the returned
  gradients. \<^verbatim>\<open>torch.cat\<close> raises on an empty list. \<^verbatim>\<open>perturb_fuc\<close> is \<^verbatim>\<open>MPC_perturb\<close>
  when \<^verbatim>\<open>args.perturb_method == 'MPC'\<close> and \<^verbatim>\<open>lambda g: g\<close> otherwise (lines 40 to 43);
  line 106 unpacks its result into two names, which for the bare dictionary the lambda
  returns iterates the keys: two keys are bound to the two names, after which
  \<^verbatim>\<open>count_update_communication_cost\<close> calls \<^verbatim>\<open>.values()\<close> on an integer, and any other
  number of keys cannot be unpacked. Loading the state dict and computing the local
  gradients are taken to return.
\<close>

definition train_clients ::
  "env \<Rightarrow> clients \<Rightarrow> nat list \<Rightarrow> grads \<Rightarrow> real \<Rightarrow> clients \<times> (error + clients_grads)" where
  "train_clients ev c uids model_param_state_dict dropout =
     (let ledger = communication_cost c
            @ [get_size_state ev model_param_state_dict * real (length uids) / 2 ^ 20];
          c = c\<lparr>communication_cost := ledger\<rparr>
      in if uids = [] then (c, Inl RuntimeError)
         else
           (let clients_grads =
                  fold (\<lambda>uid cg. AList.update uid (local_grad ev model_param_state_dict uid dropout) cg)
                    uids []
            in if perturb_method c = ''MPC'' then
                 (case MPC_perturb ev (xi c) clients_grads of
                    Inl e \<Rightarrow> (c, Inl e)
                  | Inr (perturb_grads, cost) \<Rightarrow>
                      (let l = last ledger + cost;
                           l = l + count_update_communication_cost ev c perturb_grads;
                           l = l / real (length uids)
                       in (c\<lparr>communication_cost := butlast ledger @ [l]\<rparr>, Inr perturb_grads)))
               else
                 (case map fst clients_grads of
                    [k1, k2] \<Rightarrow>
                      (c\<lparr>communication_cost := butlast ledger @ [last ledger + real k2]\<rparr>,
                       Inl AttributeError)
                  | _ \<Rightarrow> (c, Inl ValueError))))"


text \<open>
  The division \<^verbatim>\<open>a / b\<close> of two Python numbers raises \<^verbatim>\<open>ZeroDivisionError\<close> when \<open>b\<close> is zero.
\<close>

definition py_truediv :: "real \<Rightarrow> real \<Rightarrow> error + real" where
  "py_truediv a b = (if b = 0 then Inl ZeroDivisionError else Inr (a / b))"

text \<open>
  \<^verbatim>\<open>Clients.get_mean_communications_cost\<close> (line 114):
  \<^verbatim>\<open>return sum(self.communication_cost) / max(len(self.communication_cost), 1)\<close>.
  The ledger \<^verbatim>\<open>self.communication_cost\<close> is a list of per-round costs in megabytes.
\<close>

definition get_mean_communications_cost :: "real list \<Rightarrow> error + real" where
  "get_mean_communications_cost ledger =
     py_truediv (sum_list ledger) (real (max (length ledger) 1))"


subsection \<open>Server: rounds, scheduling and early stopping\<close>

text \<open>
  The server's collaborators (the clients, the model, the optimizers, the evaluation, the
  checkpoint file) are outside this file's arithmetic; a call to one of them is recorded
  as an event, in the order the calls are made. The event log is the observable behaviour
  of \<^verbatim>\<open>Server.run\<close> and \<^verbatim>\<open>Server.train\<close>, and each collaborator is taken to return.
\<close>

datatype optimizer = optimizer_encoder | optimizer_decoder

datatype event =
    ZeroGrad optimizer
  | ClientsTrain "nat list" real
  | AggregateGradients "nat list"
  | OptimizerStep optimizer
  | RestoreFromGradient "nat list"
  | ModelTrain
  | UpdatePrior
  | LogInTensorboard nat
  | Evaluate nat
  | SaveModel nat

text \<open>
  One pass of the inner loop body of \<^verbatim>\<open>Server.run\<close> (lines 225 to 241) for the cohort
  \<open>uids\<close>. The state is the local variable \<^verbatim>\<open>to_restore\<close> and the event log.
  \<open>ClientsTrain uids p\<close> is \<^verbatim>\<open>self.clients.train(uids, self.model.state_dict(), p)\<close>;
  \<open>AggregateGradients uids\<close> and \<open>RestoreFromGradient uids\<close> receive the gradients that
  call returned for \<open>uids\<close>.
\<close>

definition run_cohort ::
  "optimizer list \<Rightarrow> real \<Rightarrow> bool \<times> event list \<Rightarrow> nat list \<Rightarrow> bool \<times> event list" where
  "run_cohort opts dropout_prob st uids =
     (let (to_restore, evs) = st;
          evs = evs @ map ZeroGrad opts;
          evs = evs @ [ClientsTrain uids dropout_prob];
          evs = evs @ [AggregateGradients uids];
          evs = evs @ map OptimizerStep opts
      in if to_restore then (False, evs @ [RestoreFromGradient uids])
         else (to_restore, evs))"

text \<open>
  \<^verbatim>\<open>Server.run\<close> (line 221). \<open>uid_seq k\<close> is the list of cohorts the shuffling
  \<^verbatim>\<open>DataLoader\<close> yields when it is iterated for the \<open>k\<close>-th time; \<^verbatim>\<open>range(n_epochs)\<close> is
  empty for a negative \<open>n_epochs\<close>.
\<close>

definition run ::
  "(nat \<Rightarrow> nat list list) \<Rightarrow> optimizer list \<Rightarrow> int \<Rightarrow> real \<Rightarrow> bool \<Rightarrow> event list
     \<Rightarrow> event list" where
  "run uid_seq opts n_epochs dropout_prob to_restore evs =
     snd (fold (\<lambda>k st. fold (\<lambda>uids st. run_cohort opts dropout_prob st uids) (uid_seq k) st)
            [0..<nat n_epochs] (to_restore, evs))"

text \<open>
  The fields of \<^verbatim>\<open>Server\<close> that \<^verbatim>\<open>Server.train\<close> and \<^verbatim>\<open>Server.restore_from_gradient\<close>
  read (set in \<^verbatim>\<open>__init__\<close> from \<^verbatim>\<open>args\<close> and the dataset). \<open>enc_name\<close> and \<open>dec_name\<close> index
  the gradient dictionary of a user (lines 193 and 194), so they are hashable keys: strings.
\<close>

record server =
  epochs :: int
  early_stop :: int
  alternating :: bool
  dropout_prob :: real
  n_enc_epochs :: int
  n_dec_epochs :: int
  restore_epochs :: "int list"
  use_tensorboard :: bool
  n_items :: nat
  enc_name :: string
  dec_name :: string
  use_enc_grad :: bool

text \<open>
  The train phase of one epoch (lines 250 to 257). Every call of \<^verbatim>\<open>run\<close> builds its own
  loader; \<open>loader c\<close> is the loader of the \<open>c\<close>-th call of \<^verbatim>\<open>run\<close> made by \<^verbatim>\<open>train\<close>
  (two calls per epoch when alternating, one otherwise).
\<close>

definition train_phase ::
  "server \<Rightarrow> (nat \<Rightarrow> nat \<Rightarrow> nat list list) \<Rightarrow> nat \<Rightarrow> event list \<Rightarrow> event list" where
  "train_phase s loader epoch evs =
     (let evs = evs @ [ModelTrain];
          to_restore = (int epoch + 1 \<in> set (restore_epochs s))
      in if alternating s then
           (let evs = run (loader (2 * epoch)) [optimizer_encoder] (n_enc_epochs s)
                        (dropout_prob s) False evs;
                evs = evs @ [UpdatePrior]
            in run (loader (2 * epoch + 1)) [optimizer_decoder] (n_dec_epochs s) 0
                 to_restore evs)
         else run (loader epoch) [optimizer_encoder, optimizer_decoder] 1 (dropout_prob s)
                to_restore evs)"

text \<open>
  The local variables of \<^verbatim>\<open>Server.train\<close>. \<^verbatim>\<open>best_ndcg\<close> starts at \<^verbatim>\<open>-np.inf\<close>, which
  is \<open>None\<close> here; every real value is greater than it.
\<close>

record train_state =
  best_ndcg :: "real option"
  best_epoch :: int
  patience :: int
  events :: "event list"

definition gt_best :: "real \<Rightarrow> real option \<Rightarrow> bool" where
  "gt_best x best = (case best of None \<Rightarrow> True | Some b \<Rightarrow> x > b)"

text \<open>
  One iteration of the loop of \<^verbatim>\<open>Server.train\<close> (lines 248 to 279); the boolean is
  \<open>True\<close> when the iteration ends in \<^verbatim>\<open>break\<close>. \<open>ndcg epoch\<close> is the validation NDCG
  that \<^verbatim>\<open>self.evaluate\<close> returns in that epoch (epochs counted from 0, as \<^verbatim>\<open>range\<close>
  does).
\<close>

definition train_epoch ::
  "server \<Rightarrow> (nat \<Rightarrow> nat \<Rightarrow> nat list list) \<Rightarrow> (nat \<Rightarrow> real) \<Rightarrow> nat \<Rightarrow> train_state
     \<Rightarrow> train_state \<times> bool" where
  "train_epoch s loader ndcg epoch st =
     (let evs = train_phase s loader epoch (events st);
          evs = (if use_tensorboard s then evs @ [LogInTensorboard epoch] else evs);
          evs = evs @ [Evaluate epoch];
          ndcg5 = ndcg epoch
      in if gt_best ndcg5 (best_ndcg st) then
           (st\<lparr>best_ndcg := Some ndcg5, best_epoch := int epoch + 1,
               patience := early_stop s, events := evs @ [SaveModel epoch]\<rparr>, False)
         else
           (let p = patience st - 1
            in (st\<lparr>patience := p, events := evs\<rparr>, p = 0)))"

text \<open>
  The loop \<^verbatim>\<open>for epoch in range(self.epochs)\<close> with its \<^verbatim>\<open>break\<close>: \<open>epoch\<close> is the
  current index and the third numeric argument counts the iterations that remain.
\<close>

fun train_loop ::
  "server \<Rightarrow> (nat \<Rightarrow> nat \<Rightarrow> nat list list) \<Rightarrow> (nat \<Rightarrow> real) \<Rightarrow> nat \<Rightarrow> nat \<Rightarrow> train_state
     \<Rightarrow> train_state" where
  "train_loop s loader ndcg epoch 0 st = st"
| "train_loop s loader ndcg epoch (Suc k) st =
     (let (st', brk) = train_epoch s loader ndcg epoch st
      in if brk then st' else train_loop s loader ndcg (Suc epoch) k st')"

definition train ::
  "server \<Rightarrow> (nat \<Rightarrow> nat \<Rightarrow> nat list list) \<Rightarrow> (nat \<Rightarrow> real) \<Rightarrow> train_state" where
  "train s loader ndcg =
     train_loop s loader ndcg 0 (nat (epochs s))
       \<lparr>best_ndcg = None, best_epoch = 0, patience = early_stop s, events = []\<rparr>"

subsection \<open>Reading the event log\<close>

text \<open>
  The calls made for one cohort apart from the attack, the cohorts of a whole call of
  \<^verbatim>\<open>run\<close> in the order they are processed, and the projections of a log that the
  statements below use.
\<close>

definition round_events :: "optimizer list \<Rightarrow> real \<Rightarrow> nat list \<Rightarrow> event list" where
  "round_events opts dropout uids =
     map ZeroGrad opts @ [ClientsTrain uids dropout, AggregateGradients uids]
       @ map OptimizerStep opts"

definition cohorts_of :: "(nat \<Rightarrow> nat list list) \<Rightarrow> int \<Rightarrow> nat list list" where
  "cohorts_of uid_seq n_epochs = concat (map uid_seq [0..<nat n_epochs])"

fun is_restore :: "event \<Rightarrow> bool" where
  "is_restore (RestoreFromGradient uids) = True"
| "is_restore e = False"

definition evaluated :: "event list \<Rightarrow> nat list" where
  "evaluated evs = List.map_filter (\<lambda>e. case e of Evaluate n \<Rightarrow> Some n | _ \<Rightarrow> None) evs"

definition saved :: "event list \<Rightarrow> nat list" where
  "saved evs = List.map_filter (\<lambda>e. case e of SaveModel n \<Rightarrow> Some n | _ \<Rightarrow> None) evs"

text \<open>
  Epoch \<open>e\<close> improves when its NDCG is strictly greater than the NDCG of every earlier
  epoch, that is, than the best value seen so far.
\<close>

definition improved :: "(nat \<Rightarrow> real) \<Rightarrow> nat \<Rightarrow> bool" where
  "improved ndcg e = list_all (\<lambda>j. ndcg j < ndcg e) [0..<e]"


text \<open>
  The loop invariant of \<^verbatim>\<open>Server.train\<close> before epoch \<open>a\<close>: the epochs \<open>0..<a\<close> were
  evaluated, the improving ones were saved, and either nothing was evaluated yet or some
  epoch \<open>L\<close> holds the best NDCG and \<^verbatim>\<open>patience\<close> has been decremented once for every
  epoch after \<open>L\<close>.
\<close>

definition tracked :: "server \<Rightarrow> (nat \<Rightarrow> real) \<Rightarrow> nat \<Rightarrow> train_state \<Rightarrow> bool" where
  "tracked s ndcg a st \<longleftrightarrow>
     evaluated (events st) = [0..<a] \<and> saved (events st) = filter (improved ndcg) [0..<a] \<and>
     ((a = 0 \<and> best_ndcg st = None \<and> patience st = early_stop s) \<or>
      (\<exists>L<a. improved ndcg L \<and> (\<forall>j<a. ndcg j \<le> ndcg L) \<and> best_ndcg st = Some (ndcg L) \<and>
         best_epoch st = int L + 1 \<and> patience st = early_stop s - int (a - 1 - L)))"

text \<open>
  Example inputs: an alternating configuration with patience 2, a loader that always
  yields the cohorts \<open>[0, 1]\<close> and \<open>[2]\<close>, an NDCG sequence that improves in the first two
  epochs only, and a configuration with \<^verbatim>\<open>early_stop = 0\<close> with an NDCG sequence that
  improves in the first epoch only.
\<close>

definition server_ex :: server where
  "server_ex = \<lparr>epochs = 5, early_stop = 2, alternating = True, dropout_prob = 1/2,
     n_enc_epochs = 1, n_dec_epochs = 1, restore_epochs = [1], use_tensorboard = False,
     n_items = 4, enc_name = ''encoder.fc1.weight'', dec_name = ''decoder.weight'',
     use_enc_grad = False\<rparr>"

definition loader_ex :: "nat \<Rightarrow> nat \<Rightarrow> nat list list" where
  "loader_ex c k = [[0, 1], [2]]"

definition ndcg_ex :: "nat \<Rightarrow> real" where
  "ndcg_ex e = (if e = 1 then 2 else 1)"

definition server_zero :: server where
  "server_zero = \<lparr>epochs = 3, early_stop = 0, alternating = False, dropout_prob = 1/2,
     n_enc_epochs = 1, n_dec_epochs = 1, restore_epochs = [], use_tensorboard = False,
     n_items = 4, enc_name = ''encoder.fc1.weight'', dec_name = ''decoder.weight'',
     use_enc_grad = False\<rparr>"

definition ndcg_zero :: "nat \<Rightarrow> real" where
  "ndcg_zero e = (if e = 0 then 1 else 0)"

text \<open>
  Reading the gradients for the statements below: entry \<open>j\<close> of a tensor (0 beyond its
  entries), entry \<open>j\<close> of the tensor a user holds for a parameter (0 when the user holds
  none), and entry \<open>j\<close> of the sum over all users of a cohort of their tensors for a
  parameter. A tensor is well formed when it has as many entries as its shape says. In a
  uniform cohort every user holds the parameter names \<open>N\<close>, and the tensor for a name has
  the shape \<open>S\<close> gives that name.
\<close>

definition tensor_entry :: "tensor \<Rightarrow> nat \<Rightarrow> real" where
  "tensor_entry t j = (if j < length (entries t) then entries t ! j else 0)"

definition grad_entry :: "grads \<Rightarrow> string \<Rightarrow> nat \<Rightarrow> real" where
  "grad_entry gd name j = (case map_of gd name of None \<Rightarrow> 0 | Some t \<Rightarrow> tensor_entry t j)"

definition cohort_sum :: "clients_grads \<Rightarrow> string \<Rightarrow> nat \<Rightarrow> real" where
  "cohort_sum cg name j = (\<Sum>(uid, gd)\<leftarrow>cg. grad_entry gd name j)"

definition wf_tensor :: "tensor \<Rightarrow> bool" where
  "wf_tensor t \<longleftrightarrow> length (entries t) = prod_list (shape t)"

definition uniform_cohort :: "string set \<Rightarrow> (string \<Rightarrow> nat list) \<Rightarrow> clients_grads \<Rightarrow> bool" where
  "uniform_cohort N S cg \<longleftrightarrow>
     (\<forall>(uid, gd)\<in>set cg. fst ` set gd = N \<and>
        (\<forall>name t. map_of gd name = Some t \<longrightarrow> shape t = S name \<and> wf_tensor t))"

text \<open>
  The invariant of the loops of \<^verbatim>\<open>MPC_perturb\<close>: the users, the names and the shapes are
  those of the start, and so is every entry of the sum of every parameter.
\<close>

definition conserved :: "string set \<Rightarrow> (string \<Rightarrow> nat list) \<Rightarrow> clients_grads \<Rightarrow> clients_grads \<Rightarrow> bool" where
  "conserved N S cg0 cg \<longleftrightarrow>
     map fst cg = map fst cg0 \<and> uniform_cohort N S cg \<and>
     (\<forall>name j. cohort_sum cg name j = cohort_sum cg0 name j)"

text \<open>
  Example inputs for the clients: sizes of 4 bytes per entry, a ring as neighbor
  assignment (user \<open>i\<close> sends to the next \<^verbatim>\<open>xi\<close> users; it fails when \<^verbatim>\<open>xi\<close> exceeds the
  cohort size minus one), the shares \<open>k + j + 1\<close>, and a cohort of three users.
\<close>

definition env_ex :: env where
  "env_ex = \<lparr>get_size = (\<lambda>t. 4 * real (length (entries t))),
             get_size_state = (\<lambda>sd. 4 * (\<Sum>(n, t)\<leftarrow>sd. real (length (entries t)))),
             sample_neighbor = (\<lambda>n x. if int n \<le> x then Inl ValueError
                else Inr (map (\<lambda>i. map (\<lambda>d. (int i + int d + 1) mod int n) [0..<nat x]) [0..<n])),
             randn = (\<lambda>k j. real (k + j + 1)),
             local_grad = (\<lambda>sd uid p. [(''w'', Tensor [2, 2] [real uid, 0, 1, 2]),
                                       (''b'', Tensor [2] [1, real uid])])\<rparr>"

definition cg_ex :: clients_grads where
  "cg_ex = [(5, [(''w'', Tensor [2] [1, 2])]), (7, [(''w'', Tensor [2] [10, 20])]),
            (9, [(''w'', Tensor [2] [100, 200])])]"

text \<open>
  A parameter of the server model as \<^verbatim>\<open>aggregate_gradients\<close> sees it: whether it requires
  gradients, and its gradient accumulator \<^verbatim>\<open>param.grad\<close>, which is \<^verbatim>\<open>None\<close> after
  \<^verbatim>\<open>zero_grad(set_to_none=True)\<close>. \<^verbatim>\<open>named_parameters()\<close> is the list of the names with
  their parameters.
\<close>

record param =
  requires_grad :: bool
  grad :: "tensor option"

text \<open>
  \<^verbatim>\<open>aggregated_gradients[name] += x\<close> on the \<^verbatim>\<open>defaultdict(float)\<close> (line 180): a name
  that is not yet a key reads as the float \<open>0.0\<close>, and \<open>0.0 + x\<close> is a new tensor with
  the shape of \<open>x\<close> (\<open>tadd_scalar\<close> adds a number to every entry).
\<close>

definition tadd_scalar :: "tensor \<Rightarrow> real \<Rightarrow> tensor" where
  "tadd_scalar x s = Tensor (shape x) (map (\<lambda>v. v + s) (entries x))"

definition agg_add :: "grads \<Rightarrow> string \<Rightarrow> tensor \<Rightarrow> error + grads" where
  "agg_add aggregated_gradients name x =
     (case map_of aggregated_gradients name of
        None \<Rightarrow> Inr (AList.update name (tadd_scalar x 0) aggregated_gradients)
      | Some a \<Rightarrow>
          (case iadd a x of Inl e \<Rightarrow> Inl e
           | Inr a' \<Rightarrow> Inr (AList.update name a' aggregated_gradients)))"

text \<open>
  The second loop of \<^verbatim>\<open>aggregate_gradients\<close> (lines 182 to 188) for one parameter. A name
  that is no key of the \<^verbatim>\<open>defaultdict\<close> reads as the float \<open>0.0\<close>, which has no
  \<^verbatim>\<open>detach\<close> and which \<^verbatim>\<open>+=\<close> adds to every entry.
\<close>

definition set_grad :: "grads \<Rightarrow> string \<times> param \<Rightarrow> error + string \<times> param" where
  "set_grad aggregated_gradients np =
     (let (name, p) = np
      in if \<not> requires_grad p then Inr (name, p)
         else (case grad p of
                 None \<Rightarrow>
                   (case map_of aggregated_gradients name of
                      None \<Rightarrow> Inl AttributeError
                    | Some a \<Rightarrow> Inr (name, p\<lparr>grad := Some a\<rparr>))
               | Some g \<Rightarrow>
                   (case map_of aggregated_gradients name of
                      None \<Rightarrow> Inr (name, p\<lparr>grad := Some (tadd_scalar g 0)\<rparr>)
                    | Some a \<Rightarrow>
                        (case iadd g a of Inl e \<Rightarrow> Inl e
                         | Inr g' \<Rightarrow> Inr (name, p\<lparr>grad := Some g'\<rparr>)))))"

text \<open>
  \<^verbatim>\<open>Server.aggregate_gradients\<close> (line 175), on the named parameters of the server model;
  the result is the named parameters after the call.
\<close>

definition aggregate_gradients ::
  "(string \<times> param) list \<Rightarrow> clients_grads \<Rightarrow> error + (string \<times> param) list" where
  "aggregate_gradients named_parameters clients_grads =
     (let clients_num = length clients_grads
      in case fold_err
                (\<lambda>(uid, grads_dict) agg.
                    fold_err (\<lambda>(name, g) agg. agg_add agg name (tdiv g (real clients_num)))
                      grads_dict agg)
                clients_grads [] of
           Inl e \<Rightarrow> Inl e
         | Inr aggregated_gradients \<Rightarrow> map_err (set_grad aggregated_gradients) named_parameters)"

text \<open>
  The arithmetic mean of a non-empty list of tensors: their sum divided by their number;
  and the tensors the users of a cohort supply for a parameter, in the order of the users.
\<close>

definition tensor_mean :: "tensor list \<Rightarrow> tensor" where
  "tensor_mean ts = tdiv (foldl tadd (hd ts) (tl ts)) (real (length ts))"

definition user_grads :: "clients_grads \<Rightarrow> string \<Rightarrow> tensor list" where
  "user_grads clients_grads name = map (\<lambda>(uid, grads_dict). the (map_of grads_dict name)) clients_grads"

text \<open>
  Example inputs for the aggregation: three parameters, of which \<open>c\<close> requires no
  gradient and \<open>b\<close> already has an accumulator, and a cohort of two users.
\<close>

definition params_ex :: "(string \<times> param) list" where
  "params_ex = [(''w'', \<lparr>requires_grad = True, grad = None\<rparr>),
                (''b'', \<lparr>requires_grad = True, grad = Some (Tensor [2] [1, 1])\<rparr>),
                (''c'', \<lparr>requires_grad = False, grad = None\<rparr>)]"

definition cg2_ex :: clients_grads where
  "cg2_ex = [(0, [(''w'', Tensor [2, 1] [1, 2]), (''b'', Tensor [2] [3, 5])]),
             (1, [(''w'', Tensor [2, 1] [3, 6]), (''b'', Tensor [2] [5, 7])])]"

text \<open>
  The value the first loop of \<^verbatim>\<open>aggregate_gradients\<close> holds for a name after the tensors
  \<open>ts\<close> were added to it, each divided by \<open>c\<close>, starting from the optional value \<open>a\<close>;
  the tensors a cohort contributes to a name, in the order of its users; and an
  accumulator whose tensors have the shapes \<open>S\<close> gives their names.
\<close>

fun agg_val :: "tensor option \<Rightarrow> tensor list \<Rightarrow> real \<Rightarrow> tensor option" where
  "agg_val a [] c = a"
| "agg_val None (t # ts) c = agg_val (Some (tdiv t c)) ts c"
| "agg_val (Some a) (t # ts) c = agg_val (Some (tadd a (tdiv t c))) ts c"

definition contribs :: "clients_grads \<Rightarrow> string \<Rightarrow> tensor list" where
  "contribs cg name =
     concat (map (\<lambda>(uid, gd). case map_of gd name of None \<Rightarrow> [] | Some t \<Rightarrow> [t]) cg)"

definition agg_ok :: "(string \<Rightarrow> nat list) \<Rightarrow> grads \<Rightarrow> bool" where
  "agg_ok S agg \<longleftrightarrow> (\<forall>n a. map_of agg n = Some a \<longrightarrow> shape a = S n)"

text \<open>
  Example inputs for \<^verbatim>\<open>Clients.train\<close>: a state dict of one 2 by 2 tensor, clients
  configured with the MPC perturbation and clients configured without perturbation.
\<close>

definition sd_ex :: grads where
  "sd_ex = [(''w'', Tensor [2, 2] [0, 0, 0, 0])]"

definition clients_mpc :: clients where
  "clients_mpc = \<lparr>cl_n_items = 2, protect_module_name = [''w''], xi = 1,
                   perturb_method = ''MPC'', communication_cost = []\<rparr>"

definition clients_none :: clients where
  "clients_none = \<lparr>cl_n_items = 2, protect_module_name = [''w''], xi = 1,
                    perturb_method = ''none'', communication_cost = []\<rparr>"

text \<open>
  The numpy operations of \<^verbatim>\<open>restore_from_gradient\<close>. \<^verbatim>\<open>np.sum(a, axis=1)\<close> needs a second
  axis; arrays of more than two dimensions, which the weight matrices the attack reads
  are not, are outside the model. \<^verbatim>\<open>nonzero()[0]\<close> lists the positions of the entries that
  are not zero, \<^verbatim>\<open>astype(bool)\<close> reads a label as true when it is not 0, \<^verbatim>\<open>^= 1\<close> flips
  the lowest bit of every label, and indexing with a boolean array (\<open>np_mask\<close>) keeps the
  elements at its true positions. \<^verbatim>\<open>.mean()\<close> of an empty array is NaN, which is \<open>None\<close> here, and every
  comparison with NaN is false. \<^verbatim>\<open>x[pos] = 1\<close> raises when a position is out of range.
\<close>

definition np_sum_axis1 :: "tensor \<Rightarrow> error + real list" where
  "np_sum_axis1 t =
     (case shape t of
        [] \<Rightarrow> Inl AxisError
      | [n] \<Rightarrow> Inl AxisError
      | [r, c] \<Rightarrow> Inr (map sum_list (rows t))
      | _ \<Rightarrow> Inl RankNotModelled)"

definition nonzero :: "real list \<Rightarrow> nat list" where
  "nonzero xs = filter (\<lambda>i. xs ! i \<noteq> 0) [0..<length xs]"

definition astype_bool :: "nat list \<Rightarrow> bool list" where
  "astype_bool labels = map (\<lambda>l. l \<noteq> 0) labels"

definition logical_not :: "bool list \<Rightarrow> bool list" where
  "logical_not bs = map Not bs"

definition xor_1 :: "nat list \<Rightarrow> nat list" where
  "xor_1 labels = map (\<lambda>l. xor l 1) labels"

definition np_mask :: "'a list \<Rightarrow> bool list \<Rightarrow> 'a list" where
  "np_mask xs bs = map fst (filter snd (zip xs bs))"

definition l2_norm :: "real list \<Rightarrow> real" where
  "l2_norm row = sqrt (\<Sum>x\<leftarrow>row. \<bar>x\<bar> ^ 2)"

definition np_mean :: "real list \<Rightarrow> real option" where
  "np_mean xs = (if xs = [] then None else Some (sum_list xs / real (length xs)))"

definition float_less :: "real option \<Rightarrow> real option \<Rightarrow> bool" where
  "float_less a b = (case (a, b) of (Some x, Some y) \<Rightarrow> x < y | _ \<Rightarrow> False)"

definition set_ones :: "real list \<Rightarrow> nat list \<Rightarrow> error + real list" where
  "set_ones x pos =
     (if list_all (\<lambda>p. p < length x) pos then Inr (fold (\<lambda>p x. x[p := 1]) pos x)
      else Inl IndexError)"

text \<open>
  \<^verbatim>\<open>np.linalg.norm(dec_grads_nonzero[select], ord=2, axis=1).mean()\<close> (lines 205 and 206).
\<close>

definition cluster_norm :: "real list list \<Rightarrow> bool list \<Rightarrow> real option" where
  "cluster_norm dec_grads_nonzero select = np_mean (map l2_norm (np_mask dec_grads_nonzero select))"

text \<open>
  Lines 199 to 210 of \<^verbatim>\<open>restore_from_gradient\<close>, for the decoder gradient of one user
  after its orientation: the prediction \<^verbatim>\<open>x_pred\<close> built from the clustering.
  \<open>kmeans\<close> is \<^verbatim>\<open>KMeans(n_clusters=2, random_state=self.seed).fit_predict\<close> of sklearn,
  which raises \<^verbatim>\<open>ValueError\<close> on fewer samples than clusters and otherwise returns one
  label per row; \<^verbatim>\<open>kmeans.labels_\<close> is the array it returns, and \<open>x_pred'\<close> is the
  variable the source writes with a trailing underscore.
\<close>

definition cluster_predict ::
  "nat \<Rightarrow> (real list list \<Rightarrow> nat list) \<Rightarrow> tensor \<Rightarrow> error + real list" where
  "cluster_predict n kmeans dec_grads =
     (case np_sum_axis1 dec_grads of Inl e \<Rightarrow> Inl e | Inr row_sums \<Rightarrow>
      (let dec_grads_nonzero_idx = nonzero row_sums;
           dec_grads_nonzero = map (\<lambda>i. rows dec_grads ! i) dec_grads_nonzero_idx
       in if length dec_grads_nonzero < 2 then Inl ValueError
          else
            (let x_pred' = kmeans dec_grads_nonzero
             in if length x_pred' \<noteq> length dec_grads_nonzero then Inl IndexError
                else
                  (let select1 = astype_bool x_pred';
                       select0 = logical_not select1;
                       g_norm1 = cluster_norm dec_grads_nonzero select1;
                       g_norm0 = cluster_norm dec_grads_nonzero select0;
                       x_pred' = (if float_less g_norm1 g_norm0
                                  then xor_1 x_pred' else x_pred')
                   in set_ones (replicate n 0)
                        (np_mask dec_grads_nonzero_idx (astype_bool x_pred'))))))"

text \<open>
  The body of the loop of \<^verbatim>\<open>restore_from_gradient\<close> for one user (lines 193 to 213): the
  prediction handed to \<^verbatim>\<open>evaluate_restore\<close>. \<^verbatim>\<open>euc_grads\<close> is \<^verbatim>\<open>None\<close> when the encoder and
  decoder names are equal, and line 197 reads \<^verbatim>\<open>euc_grads.shape\<close> whatever it is.
\<close>

definition restore_user ::
  "server \<Rightarrow> (real list list \<Rightarrow> nat list) \<Rightarrow> grads \<Rightarrow> error + real list" where
  "restore_user s kmeans grads_dict =
     (case dict_get grads_dict (dec_name s) of Inl e \<Rightarrow> Inl e | Inr dec_grads \<Rightarrow>
      (case (if enc_name s = dec_name s then Inr None
             else (case dict_get grads_dict (enc_name s) of
                     Inl e \<Rightarrow> Inl e | Inr t \<Rightarrow> Inr (Some t))) of
         Inl e \<Rightarrow> Inl e
       | Inr euc_grads \<Rightarrow>
      (case shape dec_grads of [] \<Rightarrow> Inl IndexError | d0 # ds \<Rightarrow>
      (let dec_grads = (if d0 \<noteq> n_items s then np_T dec_grads else dec_grads)
       in case euc_grads of None \<Rightarrow> Inl AttributeError | Some euc \<Rightarrow>
          (case shape euc of [] \<Rightarrow> Inl IndexError | e0 # es \<Rightarrow>
          (let euc = (if e0 \<noteq> n_items s then np_T euc else euc)
           in case cluster_predict (n_items s) kmeans dec_grads of
                Inl e \<Rightarrow> Inl e
              | Inr x_pred \<Rightarrow>
                  if use_enc_grad s then
                    (case np_sum_axis1 euc of Inl e \<Rightarrow> Inl e
                     | Inr row_sums \<Rightarrow> set_ones x_pred (nonzero row_sums))
                  else Inr x_pred))))))"

text \<open>
  \<^verbatim>\<open>Server.restore_from_gradient\<close> (line 190). \<open>evaluate_restore\<close> is
  \<^verbatim>\<open>self.clients.evaluate_restore\<close>, the sklearn scores of a prediction against the
  user's data; the result is the list \<^verbatim>\<open>res\<close> whose column means are logged, and
  formatting the mean of an empty \<^verbatim>\<open>res\<close> raises \<^verbatim>\<open>TypeError\<close>.
\<close>

definition restore_from_gradient ::
  "server \<Rightarrow> (real list list \<Rightarrow> nat list) \<Rightarrow> (nat \<Rightarrow> real list \<Rightarrow> 'r) \<Rightarrow> clients_grads
     \<Rightarrow> error + 'r list" where
  "restore_from_gradient s kmeans evaluate_restore clients_grads =
     (case map_err
             (\<lambda>(uid, grads_dict).
                 case restore_user s kmeans grads_dict of
                   Inl e \<Rightarrow> Inl e
                 | Inr x_pred \<Rightarrow> Inr (evaluate_restore uid x_pred))
             clients_grads of
        Inl e \<Rightarrow> Inl e
      | Inr res \<Rightarrow> if res = [] then Inl TypeError else Inr res)"

text \<open>
  Reading the attack for the statements below: the positions and the rows of the decoder
  gradient that enter the clustering, the members of the cluster with label \<open>l\<close> among
  elements listed alongside the labels, and the mean of the row-wise L2 norms of a
  non-empty list of rows.
\<close>

definition nonzero_idx :: "tensor \<Rightarrow> nat list" where
  "nonzero_idx dec_grads = nonzero (map sum_list (rows dec_grads))"

definition nonzero_rows :: "tensor \<Rightarrow> real list list" where
  "nonzero_rows dec_grads = map (\<lambda>i. rows dec_grads ! i) (nonzero_idx dec_grads)"

definition cluster_of :: "'a list \<Rightarrow> nat list \<Rightarrow> nat \<Rightarrow> 'a list" where
  "cluster_of xs labels l = map fst (filter (\<lambda>(x, lab). lab = l) (zip xs labels))"

definition mean_norm :: "real list list \<Rightarrow> real" where
  "mean_norm rs = sum_list (map l2_norm rs) / real (length rs)"

text \<open>
  Example inputs for the attack: four items of which items 1 and 3 have a gradient, of
  L2 norms 5 and 1; a clustering that gives label 0 to the rows of large sum; one that
  puts every row into cluster 0, with a gradient whose two non-zero rows are equal; and a
  configuration whose encoder and decoder names are equal.
\<close>

definition kmeans_ex :: "real list list \<Rightarrow> nat list" where
  "kmeans_ex rs = map (\<lambda>r. if sum_list r > 2 then 0 else 1) rs"


definition dec_ex :: tensor where
  "dec_ex = Tensor [4, 2] [0, 0, 3, 4, 0, 0, 0, 1]"


definition server_same :: server where
  "server_same = server_ex\<lparr>enc_name := ''decoder.weight''\<rparr>"

text \<open>
  A configuration that uses the encoder gradients, an encoder gradient of two hidden units
  over the four items whose only non-zero entry belongs to item 0, and the gradients of
  a user made of it and the example decoder gradient.
\<close>

definition server_enc :: server where
  "server_enc = server_ex\<lparr>use_enc_grad := True\<rparr>"

definition euc_ex :: tensor where
  "euc_ex = Tensor [2, 4] [1, 0, 0, 0, 0, 0, 0, 0]"

definition grads_ex :: grads where
  "grads_ex = [(''decoder.weight'', dec_ex), (''encoder.fc1.weight'', euc_ex)]"

section \<open>Properties\<close>

subsection \<open>The mean communication cost\<close>

text \<open>
  A division by zero is an exception in this model, and a division by anything else
  returns the quotient.
\<close>

lemma py_truediv_zero: "py_truediv a 0 = Inl ZeroDivisionError"
  by (simp add: py_truediv_def)

lemma py_truediv_nonzero: "b \<noteq> 0 \<Longrightarrow> py_truediv a b = Inr (a / b)"
  by (simp add: py_truediv_def)

text \<open>
  Claim C10. On the empty ledger \<^verbatim>\<open>get_mean_communications_cost\<close> returns 0 and raises
  nothing: the divisor is \<open>max 0 1 = 1\<close>, where the length of the ledger alone, being 0,
  would make the division raise \<^verbatim>\<open>ZeroDivisionError\<close>. On every non-empty ledger it
  returns the sum of the per-round entries divided by their number.
\<close>

theorem mean_communications_cost_total:
  "get_mean_communications_cost [] = Inr 0 \<and>
   py_truediv (sum_list []) (real (length ([] :: real list))) = Inl ZeroDivisionError \<and>
   (\<forall>c cs. get_mean_communications_cost (c # cs) =
      Inr (sum_list (c # cs) / real (length (c # cs))))"
  by (simp add: get_mean_communications_cost_def py_truediv_def)

subsection \<open>One call of run\<close>

lemma run_cohort_step:
  "run_cohort opts p (b, evs) c =
     (False, evs @ round_events opts p c @ (if b then [RestoreFromGradient c] else []))"
  by (simp add: run_cohort_def round_events_def)

lemma fold_run_cohort_False:
  "fold (\<lambda>uids st. run_cohort opts p st uids) cs (False, evs) =
     (False, evs @ concat (map (round_events opts p) cs))"
  by (induction cs arbitrary: evs) (simp_all add: run_cohort_step)

lemma fold_fold_concat:
  "fold (\<lambda>k st. fold f (g k) st) ks st = fold f (concat (map g ks)) st"
  by (induction ks arbitrary: st) simp_all

lemma run_closed_form:
  "run uid_seq opts n p to_restore evs =
     (case cohorts_of uid_seq n of
        [] \<Rightarrow> evs
      | c # cs \<Rightarrow> evs @ round_events opts p c
                  @ (if to_restore then [RestoreFromGradient c] else [])
                  @ concat (map (round_events opts p) cs))"
proof -
  have "run uid_seq opts n p to_restore evs =
          snd (fold (\<lambda>uids st. run_cohort opts p st uids) (cohorts_of uid_seq n) (to_restore, evs))"
    by (simp add: run_def cohorts_of_def fold_fold_concat)
  then show ?thesis
    by (cases "cohorts_of uid_seq n")
       (simp_all add: run_cohort_step fold_run_cohort_False)
qed

lemma no_restore_in_round: "filter is_restore (round_events opts p uids) = []"
  by (auto simp add: round_events_def filter_empty_conv)


text \<open>
  Claim C5. The events a call of \<^verbatim>\<open>Server.run\<close> appends to the log are the rounds of its
  cohorts in order; when \<^verbatim>\<open>to_restore\<close> is set and the call processes at least one cohort,
  the attack is called once, on the gradients of the first cohort and right after that
  cohort's optimizer steps, and no round contains another call of the attack; the number
  of calls of the attack made by the call is 1 in that case and 0 otherwise, in
  particular when the flag is not set.
\<close>

theorem run_restores_once:
  "run uid_seq opts n p to_restore evs =
     (case cohorts_of uid_seq n of
        [] \<Rightarrow> evs
      | c # cs \<Rightarrow> evs @ round_events opts p c
                  @ (if to_restore then [RestoreFromGradient c] else [])
                  @ concat (map (round_events opts p) cs))
   \<and> filter is_restore (round_events opts p uids) = []
   \<and> length (filter is_restore (run uid_seq opts n p to_restore evs)) =
       length (filter is_restore evs)
         + (if to_restore \<and> cohorts_of uid_seq n \<noteq> [] then 1 else 0)"
proof -
  have c: "filter is_restore (concat (map (round_events opts p) cs)) = []" for cs
    by (induction cs) (simp_all add: no_restore_in_round)
  show ?thesis
    by (simp add: run_closed_form no_restore_in_round c split: list.splits)
qed

subsection \<open>The training loop\<close>

lemma evaluated_Nil [simp]: "evaluated [] = []"
  by (simp add: evaluated_def)

lemma evaluated_Cons [simp]:
  "evaluated (e # evs) = (case e of Evaluate n \<Rightarrow> n # evaluated evs | _ \<Rightarrow> evaluated evs)"
  by (simp add: evaluated_def split: event.splits)

lemma saved_Nil [simp]: "saved [] = []"
  by (simp add: saved_def)

lemma saved_Cons [simp]:
  "saved (e # evs) = (case e of SaveModel n \<Rightarrow> n # saved evs | _ \<Rightarrow> saved evs)"
  by (simp add: saved_def split: event.splits)

lemma evaluated_append [simp]: "evaluated (xs @ ys) = evaluated xs @ evaluated ys"
  by (induction xs) (simp_all split: event.splits)

lemma saved_append [simp]: "saved (xs @ ys) = saved xs @ saved ys"
  by (induction xs) (simp_all split: event.splits)

lemma evaluated_map_ZeroGrad [simp]: "evaluated (map ZeroGrad opts) = []"
  by (induction opts) simp_all

lemma evaluated_map_Step [simp]: "evaluated (map OptimizerStep opts) = []"
  by (induction opts) simp_all

lemma saved_map_ZeroGrad [simp]: "saved (map ZeroGrad opts) = []"
  by (induction opts) simp_all

lemma saved_map_Step [simp]: "saved (map OptimizerStep opts) = []"
  by (induction opts) simp_all

lemma evaluated_round [simp]: "evaluated (round_events opts p c) = []"
  by (simp add: round_events_def)

lemma saved_round [simp]: "saved (round_events opts p c) = []"
  by (simp add: round_events_def)

lemma evaluated_rounds [simp]: "evaluated (concat (map (round_events opts p) cs)) = []"
  by (induction cs) simp_all

lemma saved_rounds [simp]: "saved (concat (map (round_events opts p) cs)) = []"
  by (induction cs) simp_all

lemma evaluated_run [simp]: "evaluated (run uid_seq opts n p b evs) = evaluated evs"
  by (simp add: run_closed_form split: list.splits)

lemma saved_run [simp]: "saved (run uid_seq opts n p b evs) = saved evs"
  by (simp add: run_closed_form split: list.splits)

lemma evaluated_train_phase [simp]: "evaluated (train_phase s ld e evs) = evaluated evs"
  by (simp add: train_phase_def Let_def)

lemma saved_train_phase [simp]: "saved (train_phase s ld e evs) = saved evs"
  by (simp add: train_phase_def Let_def)

lemma train_epoch_improving:
  assumes "gt_best (ndcg e) (best_ndcg st)"
  shows "train_epoch s ld ndcg e st = (st', brk) \<Longrightarrow>
     \<not> brk \<and> best_ndcg st' = Some (ndcg e) \<and> best_epoch st' = int e + 1 \<and>
     patience st' = early_stop s \<and>
     evaluated (events st') = evaluated (events st) @ [e] \<and>
     saved (events st') = saved (events st) @ [e]"
  using assms by (auto simp add: train_epoch_def Let_def)

lemma train_epoch_stale:
  assumes "\<not> gt_best (ndcg e) (best_ndcg st)"
  shows "train_epoch s ld ndcg e st = (st', brk) \<Longrightarrow>
     brk = (patience st - 1 = 0) \<and> best_ndcg st' = best_ndcg st \<and> best_epoch st' = best_epoch st \<and>
     patience st' = patience st - 1 \<and>
     evaluated (events st') = evaluated (events st) @ [e] \<and>
     saved (events st') = saved (events st)"
  using assms by (auto simp add: train_epoch_def Let_def)

lemma improved_iff: "improved ndcg e \<longleftrightarrow> (\<forall>j<e. ndcg j < ndcg e)"
  by (auto simp add: improved_def list_all_iff)

lemma tracked_gt_best:
  assumes "tracked s ndcg a st"
  shows "gt_best (ndcg a) (best_ndcg st) \<longleftrightarrow> improved ndcg a"
proof (cases "a = 0")
  case True
  with assms show ?thesis by (simp add: tracked_def gt_best_def improved_iff)
next
  case False
  with assms obtain L where L: "L < a" "\<forall>j<a. ndcg j \<le> ndcg L" "best_ndcg st = Some (ndcg L)"
    unfolding tracked_def by auto
  show ?thesis
  proof
    assume "gt_best (ndcg a) (best_ndcg st)"
    then have "ndcg L < ndcg a" using L by (simp add: gt_best_def)
    then have "\<forall>j<a. ndcg j < ndcg a" using L(2) by (meson le_less_trans)
    then show "improved ndcg a" by (simp add: improved_iff)
  next
    assume "improved ndcg a"
    then have "ndcg L < ndcg a" using L(1) by (simp add: improved_iff)
    then show "gt_best (ndcg a) (best_ndcg st)" using L by (simp add: gt_best_def)
  qed
qed

lemma tracked_step:
  assumes tr: "tracked s ndcg a st" and te: "train_epoch s ld ndcg a st = (st', brk)"
  shows "tracked s ndcg (Suc a) st'"
proof (cases "improved ndcg a")
  case True
  then have g: "gt_best (ndcg a) (best_ndcg st)" using tr by (simp add: tracked_gt_best)
  have le: "\<forall>j<Suc a. ndcg j \<le> ndcg a"
    using True by (auto simp: improved_iff less_Suc_eq)
  note r = train_epoch_improving[OF g te]
  have "evaluated (events st') = [0..<Suc a]" using r tr by (simp add: tracked_def)
  moreover have "saved (events st') = filter (improved ndcg) [0..<Suc a]"
    using r tr True by (simp add: tracked_def)
  moreover have "a < Suc a \<and> improved ndcg a \<and> (\<forall>j<Suc a. ndcg j \<le> ndcg a) \<and>
     best_ndcg st' = Some (ndcg a) \<and> best_epoch st' = int a + 1 \<and>
     patience st' = early_stop s - int (Suc a - 1 - a)"
    using r True le by simp
  ultimately show ?thesis unfolding tracked_def by blast
next
  case False
  then have g: "\<not> gt_best (ndcg a) (best_ndcg st)" using tr by (simp add: tracked_gt_best)
  from False have "a \<noteq> 0" by (auto simp: improved_iff)
  with tr obtain L where L: "L < a" "improved ndcg L" "\<forall>j<a. ndcg j \<le> ndcg L"
     "best_ndcg st = Some (ndcg L)" "best_epoch st = int L + 1"
     "patience st = early_stop s - int (a - 1 - L)"
    unfolding tracked_def by auto
  from g L have "ndcg a \<le> ndcg L" by (simp add: gt_best_def)
  with L have le: "\<forall>j<Suc a. ndcg j \<le> ndcg L" by (auto simp: less_Suc_eq)
  have p: "patience st - 1 = early_stop s - int (Suc a - 1 - L)" using L by auto
  note r = train_epoch_stale[OF g te]
  have "evaluated (events st') = [0..<Suc a]" using r tr by (simp add: tracked_def)
  moreover have "saved (events st') = filter (improved ndcg) [0..<Suc a]"
    using r tr False by (simp add: tracked_def)
  moreover have "L < Suc a \<and> improved ndcg L \<and> (\<forall>j<Suc a. ndcg j \<le> ndcg L) \<and>
     best_ndcg st' = Some (ndcg L) \<and> best_epoch st' = int L + 1 \<and>
     patience st' = early_stop s - int (Suc a - 1 - L)"
    using r L le p by simp
  ultimately show ?thesis unfolding tracked_def by blast
qed

lemma train_epoch_patience:
  assumes te: "train_epoch s ld ndcg a st = (st', brk)"
      and "0 < early_stop s" "0 < patience st"
  shows "brk \<longleftrightarrow> patience st' = 0" "0 \<le> patience st'"
proof -
  show "brk \<longleftrightarrow> patience st' = 0"
  proof (cases "gt_best (ndcg a) (best_ndcg st)")
    case True
    from train_epoch_improving[OF True te] assms(2) show ?thesis by simp
  next
    case False
    from train_epoch_stale[OF False te] show ?thesis by simp
  qed
  show "0 \<le> patience st'"
  proof (cases "gt_best (ndcg a) (best_ndcg st)")
    case True
    from train_epoch_improving[OF True te] assms(2) show ?thesis by simp
  next
    case False
    from train_epoch_stale[OF False te] assms(3) show ?thesis by simp
  qed
qed

lemma train_loop_tracked:
  assumes "tracked s ndcg a st" "0 < early_stop s" "0 < patience st"
  shows "\<exists>T. a \<le> T \<and> T \<le> a + k \<and> tracked s ndcg T (train_loop s ld ndcg a k st) \<and>
           (T = a \<and> k = 0 \<or> a < T \<and> patience (train_loop s ld ndcg a k st) = 0 \<or>
            T = a + k \<and> 0 < patience (train_loop s ld ndcg a k st))"
  using assms
proof (induction k arbitrary: a st)
  case 0
  then show ?case by (intro exI[of _ a]) simp
next
  case (Suc k)
  obtain st' brk where te: "train_epoch s ld ndcg a st = (st', brk)" by force
  have tr': "tracked s ndcg (Suc a) st'" using Suc.prems(1) te by (rule tracked_step)
  note pp = train_epoch_patience[OF te Suc.prems(2) Suc.prems(3)]
  show ?case
  proof (cases brk)
    case True
    then have eq: "train_loop s ld ndcg a (Suc k) st = st'" using te by simp
    have "patience st' = 0" using pp True by simp
    then show ?thesis unfolding eq using tr' by (intro exI[of _ "Suc a"]) simp
  next
    case False
    then have eq: "train_loop s ld ndcg a (Suc k) st = train_loop s ld ndcg (Suc a) k st'"
      using te by simp
    have p': "0 < patience st'" using pp False by simp
    from Suc.IH[OF tr' Suc.prems(2) p'] obtain T where
      T: "Suc a \<le> T" "T \<le> Suc a + k" "tracked s ndcg T (train_loop s ld ndcg (Suc a) k st')"
         "T = Suc a \<and> k = 0 \<or> Suc a < T \<and> patience (train_loop s ld ndcg (Suc a) k st') = 0 \<or>
            T = Suc a + k \<and> 0 < patience (train_loop s ld ndcg (Suc a) k st')"
      by blast
    show ?thesis
    proof (cases "k = 0")
      case True
      then have e2: "train_loop s ld ndcg (Suc a) k st' = st'" by simp
      have "T = Suc a" using T(1,2) True by simp
      then show ?thesis unfolding eq e2 using T(3) p' True e2 by (intro exI[of _ "Suc a"]) simp
    next
      case False
      have a1: "a \<le> T" "T \<le> a + Suc k" "a < T" using T(1,2) by simp_all
      from T(4) False have
        "patience (train_loop s ld ndcg (Suc a) k st') = 0 \<or>
         T = a + Suc k \<and> 0 < patience (train_loop s ld ndcg (Suc a) k st')" by auto
      with a1 T(3) show ?thesis unfolding eq by (intro exI[of _ T]) blast
    qed
  qed
qed

lemma tracked_init:
  "tracked s ndcg 0 \<lparr>best_ndcg = None, best_epoch = 0, patience = early_stop s, events = []\<rparr>"
  by (simp add: tracked_def)

lemma tracked_no_later_improvement:
  assumes "L < T" "\<forall>j<T. ndcg j \<le> ndcg L" "L < j" "j < T"
  shows "\<not> improved ndcg j"
proof
  assume "improved ndcg j"
  then have "ndcg L < ndcg j" using assms(3) by (simp add: improved_iff)
  moreover have "ndcg j \<le> ndcg L" using assms(2,4) by simp
  ultimately show False by simp
qed


text \<open>
  Claim C7 (as amended: for a patience \<^verbatim>\<open>early_stop\<close> of at least 1). With the validation
  NDCG of epoch \<open>e\<close> given by \<open>ndcg e\<close>, \<^verbatim>\<open>Server.train\<close> evaluates the epochs \<open>0..<T\<close>
  and then halts, where \<open>T\<close> is at most \<^verbatim>\<open>epochs\<close>; unless no epoch runs at all, there is
  a last improving epoch \<open>L\<close> among them (epoch number \<open>L + 1\<close>), no later epoch below \<open>T\<close>
  improves, and \<open>T\<close> is \<open>L + 1 + early_stop\<close> or \<^verbatim>\<open>epochs\<close>, whichever is smaller: the
  loop halts exactly \<^verbatim>\<open>early_stop\<close> epochs after the last improving epoch, never earlier
  and never later, unless the maximum is reached first. The checkpoint is saved in
  exactly the improving epochs, and \<^verbatim>\<open>patience\<close> ends at \<^verbatim>\<open>early_stop\<close> minus the
  number of epochs run since \<open>L\<close>, so it was reset there.
\<close>

theorem train_early_stopping:
  assumes es: "0 < early_stop s"
  shows "\<exists>T. evaluated (events (train s ld ndcg)) = [0..<T] \<and>
           T \<le> nat (epochs s) \<and>
           saved (events (train s ld ndcg)) = filter (improved ndcg) [0..<T] \<and>
           (T = 0 \<and> epochs s \<le> 0 \<or>
            (\<exists>L<T. improved ndcg L \<and> (\<forall>j. L < j \<and> j < T \<longrightarrow> \<not> improved ndcg j) \<and>
                T = min (nat (epochs s)) (L + 1 + nat (early_stop s)) \<and>
                best_epoch (train s ld ndcg) = int L + 1 \<and>
                best_ndcg (train s ld ndcg) = Some (ndcg L) \<and>
                patience (train s ld ndcg) = early_stop s - int (T - 1 - L)))"
proof -
  let ?st0 = "\<lparr>best_ndcg = None, best_epoch = 0, patience = early_stop s, events = []\<rparr>"
  let ?r = "train s ld ndcg"
  have r: "?r = train_loop s ld ndcg 0 (nat (epochs s)) ?st0" by (simp add: train_def)
  have "0 < patience ?st0" using es by simp
  from train_loop_tracked[OF tracked_init es this, where ld = ld and k = "nat (epochs s)" and ndcg = ndcg]
  obtain T where T: "T \<le> nat (epochs s)" "tracked s ndcg T ?r"
     "T = 0 \<and> nat (epochs s) = 0 \<or> 0 < T \<and> patience ?r = 0 \<or>
      T = nat (epochs s) \<and> 0 < patience ?r"
    unfolding r by auto
  have ev: "evaluated (events ?r) = [0..<T]" and sv: "saved (events ?r) = filter (improved ndcg) [0..<T]"
    using T(2) by (simp_all add: tracked_def)
  show ?thesis
  proof (cases "T = 0")
    case True
    with T(3) have "epochs s \<le> 0" by auto
    with True ev sv T(1) show ?thesis by (intro exI[of _ T]) simp
  next
    case False
    with T(2) obtain L where L: "L < T" "improved ndcg L" "\<forall>j<T. ndcg j \<le> ndcg L"
      "best_ndcg ?r = Some (ndcg L)" "best_epoch ?r = int L + 1"
      "patience ?r = early_stop s - int (T - 1 - L)"
      unfolding tracked_def by auto
    have nl: "\<forall>j. L < j \<and> j < T \<longrightarrow> \<not> improved ndcg j"
      using tracked_no_later_improvement[OF L(1) L(3)] by blast
    have "T = min (nat (epochs s)) (L + 1 + nat (early_stop s))"
    proof -
      from T(3) False consider "patience ?r = 0" | "T = nat (epochs s)" "0 < patience ?r"
        by blast
      then show ?thesis
      proof cases
        case 1
        with L(6) have "int (T - 1 - L) = early_stop s" by simp
        then have "T - 1 - L = nat (early_stop s)" by linarith
        with L(1) have "T = L + 1 + nat (early_stop s)" by linarith
        with T(1) show ?thesis by linarith
      next
        case 2
        with L(6) have "int (T - 1 - L) < early_stop s" by simp
        then have "T - 1 - L < nat (early_stop s)" by linarith
        with L(1) have "T < L + 1 + nat (early_stop s)" by linarith
        with 2(1) show ?thesis by linarith
      qed
    qed
    with L nl have "\<exists>L<T. improved ndcg L \<and> (\<forall>j. L < j \<and> j < T \<longrightarrow> \<not> improved ndcg j) \<and>
                T = min (nat (epochs s)) (L + 1 + nat (early_stop s)) \<and>
                best_epoch ?r = int L + 1 \<and> best_ndcg ?r = Some (ndcg L) \<and>
                patience ?r = early_stop s - int (T - 1 - L)"
      by blast
    with ev sv T(1) show ?thesis by blast
  qed
qed


text \<open>
  The theorem at the example: patience 2, NDCG 1, 2, 1, 1, 1. Epochs 1 and 2 improve,
  epochs 3 and 4 do not, and training halts after four of the five epochs.
\<close>

theorem train_early_stopping_witness:
  "0 < early_stop server_ex \<and>
   evaluated (events (train server_ex loader_ex ndcg_ex)) = [0, 1, 2, 3] \<and>
   saved (events (train server_ex loader_ex ndcg_ex)) = [0, 1] \<and>
   (\<exists>T. evaluated (events (train server_ex loader_ex ndcg_ex)) = [0..<T] \<and>
           T \<le> nat (epochs server_ex) \<and>
           saved (events (train server_ex loader_ex ndcg_ex)) = filter (improved ndcg_ex) [0..<T] \<and>
           (T = 0 \<and> epochs server_ex \<le> 0 \<or>
            (\<exists>L<T. improved ndcg_ex L \<and> (\<forall>j. L < j \<and> j < T \<longrightarrow> \<not> improved ndcg_ex j) \<and>
                T = min (nat (epochs server_ex)) (L + 1 + nat (early_stop server_ex)) \<and>
                best_epoch (train server_ex loader_ex ndcg_ex) = int L + 1 \<and>
                best_ndcg (train server_ex loader_ex ndcg_ex) = Some (ndcg_ex L) \<and>
                patience (train server_ex loader_ex ndcg_ex) = early_stop server_ex - int (T - 1 - L))))"
proof -
  have h: "0 < early_stop server_ex" by (simp add: server_ex_def)
  have e: "evaluated (events (train server_ex loader_ex ndcg_ex)) = [0, 1, 2, 3]"
    by (simp add: server_ex_def loader_ex_def ndcg_ex_def train_def train_epoch_def
          train_phase_def run_def run_cohort_def gt_best_def Let_def numeral_nat)
  have sv: "saved (events (train server_ex loader_ex ndcg_ex)) = [0, 1]"
    by (simp add: server_ex_def loader_ex_def ndcg_ex_def train_def train_epoch_def
          train_phase_def run_def run_cohort_def gt_best_def Let_def numeral_nat)
  from h e sv train_early_stopping[OF h, of loader_ex ndcg_ex] show ?thesis by blast
qed

text \<open>
  With \<^verbatim>\<open>early_stop = 0\<close> the statement of C7 fails without the amendment: \<^verbatim>\<open>patience\<close>
  starts at 0, is decremented to \<open>-1\<close> in the first epoch that does not improve and never
  equals 0 again, so all three epochs run although only the first improves; halting
  \<^verbatim>\<open>early_stop\<close> epochs after it would mean halting after one epoch.
\<close>

theorem train_early_stop_zero_counterexample:
  "evaluated (events (train server_zero loader_ex ndcg_zero)) = [0, 1, 2] \<and>
   improved ndcg_zero 0 \<and> \<not> improved ndcg_zero 1 \<and> \<not> improved ndcg_zero 2 \<and>
   length (evaluated (events (train server_zero loader_ex ndcg_zero)))
     \<noteq> min (nat (epochs server_zero)) (0 + 1 + nat (early_stop server_zero))"
  by (simp add: server_zero_def loader_ex_def ndcg_zero_def train_def train_epoch_def
        train_phase_def run_def run_cohort_def gt_best_def Let_def numeral_nat improved_def)

lemma run_no_restore:
  "run uid_seq opts n p False evs =
     evs @ concat (map (round_events opts p) (cohorts_of uid_seq n))"
  by (cases "cohorts_of uid_seq n") (simp_all add: run_closed_form)

lemma run_from_empty:
  "run uid_seq opts n p b evs = evs @ run uid_seq opts n p b []"
  by (cases "cohorts_of uid_seq n") (simp_all add: run_closed_form)

text \<open>
  Claim C6. In alternating mode the calls of one epoch of \<^verbatim>\<open>Server.train\<close> are, in this
  order: \<^verbatim>\<open>model.train()\<close>; the rounds of the cohorts of \<^verbatim>\<open>n_enc_epochs\<close> passes over the
  loader, each zeroing and stepping the encoder optimizer only and training the clients
  with the configured dropout probability, none followed by the attack; one call of
  \<^verbatim>\<open>update_prior\<close>; the rounds of the cohorts of \<^verbatim>\<open>n_dec_epochs\<close> passes, each zeroing and
  stepping the decoder optimizer only and training with dropout probability 0, the first
  of them followed by the attack when the epoch is a restoring epoch; then the logging,
  the evaluation and the checkpoint.
\<close>

theorem alternating_epoch_order:
  assumes "alternating s"
  shows "events (fst (train_epoch s loader ndcg epoch st)) =
     events st @ [ModelTrain]
       @ concat (map (round_events [optimizer_encoder] (dropout_prob s))
                   (cohorts_of (loader (2 * epoch)) (n_enc_epochs s)))
       @ [UpdatePrior]
       @ (case cohorts_of (loader (2 * epoch + 1)) (n_dec_epochs s) of
            [] \<Rightarrow> []
          | c # cs \<Rightarrow>
              round_events [optimizer_decoder] 0 c
                @ (if int epoch + 1 \<in> set (restore_epochs s) then [RestoreFromGradient c] else [])
                @ concat (map (round_events [optimizer_decoder] 0) cs))
       @ (if use_tensorboard s then [LogInTensorboard epoch] else [])
       @ [Evaluate epoch]
       @ (if gt_best (ndcg epoch) (best_ndcg st) then [SaveModel epoch] else [])
   \<and> round_events [optimizer_encoder] (dropout_prob s) uids =
       [ZeroGrad optimizer_encoder, ClientsTrain uids (dropout_prob s), AggregateGradients uids,
        OptimizerStep optimizer_encoder]
   \<and> round_events [optimizer_decoder] 0 uids =
       [ZeroGrad optimizer_decoder, ClientsTrain uids 0, AggregateGradients uids,
        OptimizerStep optimizer_decoder]
   \<and> length (cohorts_of (loader (2 * epoch)) (n_enc_epochs s)) =
       (\<Sum>k\<leftarrow>[0..<nat (n_enc_epochs s)]. length (loader (2 * epoch) k))
   \<and> length (cohorts_of (loader (2 * epoch + 1)) (n_dec_epochs s)) =
       (\<Sum>k\<leftarrow>[0..<nat (n_dec_epochs s)]. length (loader (2 * epoch + 1) k))"
proof -
  have dec: "run (loader (2 * epoch + 1)) [optimizer_decoder] (n_dec_epochs s) 0 b [] =
     (case cohorts_of (loader (2 * epoch + 1)) (n_dec_epochs s) of
            [] \<Rightarrow> []
          | c # cs \<Rightarrow>
              round_events [optimizer_decoder] 0 c
                @ (if b then [RestoreFromGradient c] else [])
                @ concat (map (round_events [optimizer_decoder] 0) cs))" for b
    by (cases "cohorts_of (loader (2 * epoch + 1)) (n_dec_epochs s)")
       (simp_all add: run_closed_form)
  have tp: "train_phase s loader epoch evs = evs @ [ModelTrain]
       @ concat (map (round_events [optimizer_encoder] (dropout_prob s))
                   (cohorts_of (loader (2 * epoch)) (n_enc_epochs s)))
       @ [UpdatePrior]
       @ run (loader (2 * epoch + 1)) [optimizer_decoder] (n_dec_epochs s) 0
           (int epoch + 1 \<in> set (restore_epochs s)) []" for evs
    using assms unfolding train_phase_def Let_def run_no_restore
    by (subst run_from_empty) simp
  have ev: "events (fst (train_epoch s loader ndcg epoch st)) =
      train_phase s loader epoch (events st)
       @ (if use_tensorboard s then [LogInTensorboard epoch] else [])
       @ [Evaluate epoch]
       @ (if gt_best (ndcg epoch) (best_ndcg st) then [SaveModel epoch] else [])"
    by (simp add: train_epoch_def Let_def)
  show ?thesis
    unfolding ev tp dec
    by (simp add: round_events_def cohorts_of_def length_concat comp_def)
qed

text \<open>The theorem at the example configuration, first epoch, two cohorts per pass.\<close>

theorem alternating_epoch_order_witness:
  "alternating server_ex \<and>
   events (fst (train_epoch server_ex loader_ex ndcg_ex 0
       \<lparr>best_ndcg = None, best_epoch = 0, patience = 2, events = []\<rparr>)) =
     [ModelTrain,
      ZeroGrad optimizer_encoder, ClientsTrain [0, 1] (1/2), AggregateGradients [0, 1],
      OptimizerStep optimizer_encoder,
      ZeroGrad optimizer_encoder, ClientsTrain [2] (1/2), AggregateGradients [2],
      OptimizerStep optimizer_encoder,
      UpdatePrior,
      ZeroGrad optimizer_decoder, ClientsTrain [0, 1] 0, AggregateGradients [0, 1],
      OptimizerStep optimizer_decoder, RestoreFromGradient [0, 1],
      ZeroGrad optimizer_decoder, ClientsTrain [2] 0, AggregateGradients [2],
      OptimizerStep optimizer_decoder,
      Evaluate 0, SaveModel 0]"
proof -
  have h: "alternating server_ex" by (simp add: server_ex_def)
  show ?thesis
    using h alternating_epoch_order[OF h, of loader_ex ndcg_ex 0
       "\<lparr>best_ndcg = None, best_epoch = 0, patience = 2, events = []\<rparr>" "[]"]
    by (simp add: server_ex_def loader_ex_def round_events_def gt_best_def cohorts_of_def)
qed

subsection \<open>Share conservation of the pairwise masking\<close>

lemma fold_err_invariant:
  assumes "P s" and "\<And>x s. x \<in> set xs \<Longrightarrow> P s \<Longrightarrow> \<exists>s'. f x s = Inr s' \<and> P s'"
  shows "\<exists>s'. fold_err f xs s = Inr s' \<and> P s'"
  using assms
proof (induction xs arbitrary: s)
  case Nil
  then show ?case by simp
next
  case (Cons x xs)
  from Cons.prems obtain s1 where s1: "f x s = Inr s1" "P s1" by (meson list.set_intros(1))
  have "\<exists>s'. fold_err f xs s1 = Inr s' \<and> P s'"
    by (rule Cons.IH[OF s1(2)]) (simp add: Cons.prems(2))
  then show ?case using s1 by simp
qed

lemma map_err_all:
  assumes "\<And>x. x \<in> set xs \<Longrightarrow> \<exists>y. f x = Inr y \<and> Q y"
  shows "\<exists>ys. map_err f xs = Inr ys \<and> length ys = length xs \<and> (\<forall>y\<in>set ys. Q y)"
  using assms
proof (induction xs)
  case Nil
  then show ?case by simp
next
  case (Cons x xs)
  from Cons.prems obtain y where y: "f x = Inr y" "Q y" by (meson list.set_intros(1))
  from Cons have "\<exists>ys. map_err f xs = Inr ys \<and> length ys = length xs \<and> (\<forall>y\<in>set ys. Q y)"
    by simp
  then obtain ys where "map_err f xs = Inr ys" "length ys = length xs" "\<forall>y\<in>set ys. Q y" by blast
  with y show ?case by simp
qed

lemma np_index_in_range:
  assumes "- int (length xs) \<le> j" "j < int (length xs)"
  shows "\<exists>y. np_index xs j = Inr y \<and> y \<in> set xs"
proof (cases "0 \<le> j")
  case True
  with assms have "nat j < length xs" by linarith
  with True assms show ?thesis by (simp add: np_index_def Let_def)
next
  case False
  with assms have "nat (j + int (length xs)) < length xs" by linarith
  with False assms show ?thesis by (simp add: np_index_def Let_def)
qed

lemma sum_list_alist_update:
  "map_of al k = Some v \<Longrightarrow>
     (\<Sum>(a, b)\<leftarrow>AList.update k v' al. f b) = (\<Sum>(a, b)\<leftarrow>al. f b) - f v + f (v' :: 'b) "
  for f :: "'b \<Rightarrow> real"
  by (induction al) (auto split: if_splits)

lemma grad_entry_update:
  "grad_entry (AList.update name t gd) n j =
     (if n = name then tensor_entry t j else grad_entry gd n j)"
  by (simp add: grad_entry_def update_conv')

lemma cohort_sum_update:
  assumes "map_of cg uid = Some gu"
  shows "cohort_sum (AList.update uid (AList.update name t gu) cg) n j =
           cohort_sum cg n j - grad_entry gu n j
             + (if n = name then tensor_entry t j else grad_entry gu n j)"
  unfolding cohort_sum_def
  using sum_list_alist_update[OF assms, where v' = "AList.update name t gu"
          and f = "\<lambda>gd. grad_entry gd n j"]
  by (simp add: grad_entry_update)

lemma tensor_entry_tsub:
  "length (entries b) = length (entries a) \<Longrightarrow>
     tensor_entry (tsub a b) j = tensor_entry a j - tensor_entry b j"
  by (simp add: tensor_entry_def tsub_def)

lemma tensor_entry_tadd:
  "length (entries b) = length (entries a) \<Longrightarrow>
     tensor_entry (tadd a b) j = tensor_entry a j + tensor_entry b j"
  by (simp add: tensor_entry_def tadd_def)

lemma map_fst_update_present:
  "map_of al k = Some v \<Longrightarrow> map fst (AList.update k v' al) = map fst al"
  by (simp add: update_keys map_of_eq_Some_iff weak_map_of_SomeI image_iff)
     (metis domI dom_map_of_conv_image_fst image_iff)

lemma uniform_cohort_update:
  assumes u: "uniform_cohort N S cg" and gu: "map_of cg uid = Some gu"
      and name: "name \<in> N" and t: "shape t = S name" "wf_tensor t"
  shows "uniform_cohort N S (AList.update uid (AList.update name t gu) cg)"
proof -
  have mem: "(uid, gu) \<in> set cg" using gu by (rule map_of_SomeD)
  with u have g: "fst ` set gu = N" "\<forall>n t'. map_of gu n = Some t' \<longrightarrow> shape t' = S n \<and> wf_tensor t'"
    unfolding uniform_cohort_def by auto
  have k: "fst ` set (AList.update name t gu) = N" using g(1) name by (auto simp: dom_update)
  have m: "\<forall>n t'. map_of (AList.update name t gu) n = Some t' \<longrightarrow> shape t' = S n \<and> wf_tensor t'"
    using g(2) t by (auto simp: update_conv')
  have "set (AList.update uid (AList.update name t gu) cg) \<subseteq> insert (uid, AList.update name t gu) (set cg)"
    by (induction cg) auto
  with u k m show ?thesis unfolding uniform_cohort_def by blast
qed

lemma uniform_lookup:
  assumes "uniform_cohort N S cg" "map_of cg uid = Some gu"
  shows "fst ` set gu = N"
    and "map_of gu name = Some t \<Longrightarrow> shape t = S name \<and> wf_tensor t"
proof -
  have "(uid, gu) \<in> set cg" using assms(2) by (rule map_of_SomeD)
  with assms(1) show "fst ` set gu = N"
    and "map_of gu name = Some t \<Longrightarrow> shape t = S name \<and> wf_tensor t"
    unfolding uniform_cohort_def by auto
qed

lemma key_present:
  assumes "k \<in> fst ` set al"
  shows "\<exists>v. map_of al k = Some v"
  using assms by (metis domD dom_map_of_conv_image_fst)

lemma send_share_conserved:
  assumes c: "conserved N S cg0 cg"
      and uid: "uid \<in> fst ` set cg" and suid: "suid \<in> fst ` set cg" and name: "name \<in> N"
  shows "\<exists>cg' cost' k'. send_share ev uid suid name (cg, cost, k) = Inr (cg', cost', k') \<and>
           conserved N S cg0 cg'"
proof -
  from c have u: "uniform_cohort N S cg" and keys: "map fst cg = map fst cg0"
    and sums: "\<And>n j. cohort_sum cg n j = cohort_sum cg0 n j"
    by (simp_all add: conserved_def)
  from uid obtain gu where gu: "map_of cg uid = Some gu" using key_present by fastforce
  have Ngu: "fst ` set gu = N" using uniform_lookup(1)[OF u gu] .
  with name obtain g where g: "map_of gu name = Some g" using key_present by fastforce
  have gs: "shape g = S name" "wf_tensor g" using uniform_lookup(2)[OF u gu g] by simp_all
  define share where "share = randn_like (randn ev) k g"
  have sh: "shape share = S name" "length (entries share) = length (entries g)"
    using gs by (simp_all add: share_def randn_like_def)
  have wsh: "wf_tensor share" using gs sh by (simp add: wf_tensor_def)
  define g1 where "g1 = tsub g share"
  have g1: "shape g1 = S name" "wf_tensor g1"
    using gs sh by (simp_all add: g1_def tsub_def wf_tensor_def)
  define cg1 where "cg1 = AList.update uid (AList.update name g1 gu) cg"
  have u1: "uniform_cohort N S cg1"
    unfolding cg1_def using u gu name g1 by (rule uniform_cohort_update)
  have k1: "map fst cg1 = map fst cg" unfolding cg1_def using gu by (rule map_fst_update_present)
  have s1: "cohort_sum cg1 n j = cohort_sum cg n j - (if n = name then tensor_entry share j else 0)"
    for n j
    unfolding cg1_def cohort_sum_update[OF gu]
    using g sh(2) by (simp add: g1_def tensor_entry_tsub grad_entry_def)
  have "suid \<in> fst ` set cg1" using suid k1 by (metis list.set_map)
  then obtain gr where gr: "map_of cg1 suid = Some gr" using key_present by fastforce
  have Ngr: "fst ` set gr = N" using uniform_lookup(1)[OF u1 gr] .
  with name obtain r where r: "map_of gr name = Some r" using key_present by fastforce
  have rs: "shape r = S name" "wf_tensor r" using uniform_lookup(2)[OF u1 gr r] by simp_all
  have len: "length (entries share) = length (entries r)"
    using rs wsh sh(1) by (simp add: wf_tensor_def)
  define r' where "r' = tadd r share"
  have r': "shape r' = S name" "wf_tensor r'"
    using rs len by (simp_all add: r'_def tadd_def wf_tensor_def)
  define cg2 where "cg2 = AList.update suid (AList.update name r' gr) cg1"
  have u2: "uniform_cohort N S cg2"
    unfolding cg2_def using u1 gr name r' by (rule uniform_cohort_update)
  have k2: "map fst cg2 = map fst cg1" unfolding cg2_def using gr by (rule map_fst_update_present)
  have s2: "cohort_sum cg2 n j = cohort_sum cg1 n j + (if n = name then tensor_entry share j else 0)"
    for n j
    unfolding cg2_def cohort_sum_update[OF gr]
    using r len by (simp add: r'_def tensor_entry_tadd grad_entry_def)
  have res: "send_share ev uid suid name (cg, cost, k) = Inr (cg2, cost + get_size ev share, k + 1)"
    using gu g gr r rs sh(1)
    by (simp add: send_share_def dict_get_def Let_def iadd_def share_def[symmetric]
          g1_def[symmetric] cg1_def[symmetric] r'_def[symmetric] cg2_def[symmetric])
  have "conserved N S cg0 cg2"
    unfolding conserved_def using u2 k2 k1 keys s1 s2 sums by simp
  with res show ?thesis by blast
qed

lemma share_to_conserved:
  assumes c: "conserved N S cg0 cg"
      and uid: "uid \<in> fst ` set cg0" and suid: "suid \<in> fst ` set cg0"
  shows "\<exists>st'. share_to ev uid suid (cg, cost, k) = Inr st' \<and> conserved N S cg0 (fst st')"
proof -
  from c have u: "uniform_cohort N S cg" and keys: "map fst cg = map fst cg0"
    by (simp_all add: conserved_def)
  have in_cg: "uid \<in> fst ` set cg" "suid \<in> fst ` set cg"
    using uid suid keys by (metis list.set_map)+
  from in_cg obtain gu where gu: "map_of cg uid = Some gu" using key_present by fastforce
  from in_cg obtain gr where gr: "map_of cg suid = Some gr" using key_present by fastforce
  have Ngu: "fst ` set gu = N" using uniform_lookup(1)[OF u gu] .
  have step: "\<exists>s'. send_share ev uid suid name s = Inr s' \<and> conserved N S cg0 (fst s')"
    if "name \<in> set (map fst gu)" "conserved N S cg0 (fst s)" for name s
  proof -
    obtain cg' cost' k' where s: "s = (cg', cost', k')" by (cases s) auto
    from that(2) s have c': "conserved N S cg0 cg'" by simp
    then have "map fst cg' = map fst cg0" by (simp add: conserved_def)
    then have "uid \<in> fst ` set cg'" "suid \<in> fst ` set cg'"
      using uid suid by (metis list.set_map)+
    moreover have "name \<in> N" using that(1) Ngu by simp
    ultimately show ?thesis
      using send_share_conserved[OF c', of uid suid name ev cost' k'] s by auto
  qed
  have "\<exists>s'. fold_err (send_share ev uid suid) (map fst gu) (cg, cost, k) = Inr s'
           \<and> conserved N S cg0 (fst s')"
    by (rule fold_err_invariant[where P = "\<lambda>s. conserved N S cg0 (fst s)"])
       (use c step in auto)
  then show ?thesis using gu gr by (simp add: share_to_def dict_get_def)
qed

lemma conserved_refl: "uniform_cohort N S cg \<Longrightarrow> conserved N S cg cg"
  by (simp add: conserved_def)

text \<open>
  Claim C1. For a cohort in which every user holds the same parameter names with the same
  tensor shapes, and a neighbor assignment that has a row for every user and names only
  members of the cohort (a closed exchange), \<^verbatim>\<open>MPC_perturb\<close> returns, keeps the users, the
  names and the shapes, and leaves every entry of the sum over the cohort of every
  parameter's tensors unchanged, whatever the random shares are. The fan-out \<^verbatim>\<open>xi\<close> is
  arbitrary, so this covers \<^verbatim>\<open>xi >= 1\<close>.
\<close>

theorem MPC_perturb_conserves_sum:
  assumes u: "uniform_cohort N S clients_grads"
      and sn: "sample_neighbor ev (length clients_grads) xi_val = Inr clients_idx"
      and rows_ok: "length clients_grads \<le> length clients_idx"
      and closed: "\<forall>row\<in>set clients_idx. \<forall>j\<in>set row.
                     - int (length clients_grads) \<le> j \<and> j < int (length clients_grads)"
  shows "\<exists>cg' cost. MPC_perturb ev xi_val clients_grads = Inr (cg', cost) \<and>
           map fst cg' = map fst clients_grads \<and> uniform_cohort N S cg' \<and>
           (\<forall>name j. cohort_sum cg' name j = cohort_sum clients_grads name j)"
proof -
  let ?uids = "map fst clients_grads"
  have row: "\<exists>ys. map_err (np_index ?uids) row = Inr ys \<and> set ys \<subseteq> set ?uids"
    if "row \<in> set clients_idx" for row
  proof -
    have el: "\<exists>y. np_index ?uids j = Inr y \<and> y \<in> set ?uids" if "j \<in> set row" for j
      using closed \<open>row \<in> set clients_idx\<close> that by (intro np_index_in_range) auto
    have "\<exists>ys. map_err (np_index ?uids) row = Inr ys \<and> length ys = length row \<and>
            (\<forall>y\<in>set ys. y \<in> set ?uids)"
      by (rule map_err_all) (rule el)
    then show ?thesis by auto
  qed
  have "\<exists>yss. map_err (map_err (np_index ?uids)) clients_idx = Inr yss \<and>
          length yss = length clients_idx \<and> (\<forall>ys\<in>set yss. set ys \<subseteq> set ?uids)"
    by (rule map_err_all) (rule row)
  then obtain cts where cts: "map_err (map_err (np_index ?uids)) clients_idx = Inr cts"
    "length cts = length clients_idx" "\<forall>ys\<in>set cts. set ys \<subseteq> set ?uids"
    by blast
  let ?body = "\<lambda>(i, uid) st. if i < length cts then fold_err (share_to ev uid) (cts ! i) st
                              else Inl IndexError"
  have step: "\<exists>s'. ?body x s = Inr s' \<and> conserved N S clients_grads (fst s')"
    if x: "x \<in> set (enumerate 0 ?uids)" and s: "conserved N S clients_grads (fst s)" for x s
  proof -
    obtain i uid where xi: "x = (i, uid)" by (cases x) auto
    from x xi have i: "i < length ?uids" and uid: "uid \<in> set ?uids"
      by (auto simp: in_set_enumerate_eq)
    have il: "i < length cts" using i rows_ok cts(2) by simp
    then have sub: "set (cts ! i) \<subseteq> set ?uids" using cts(3) by simp
    have one: "\<exists>t'. share_to ev uid suid t = Inr t' \<and> conserved N S clients_grads (fst t')"
      if "suid \<in> set (cts ! i)" "conserved N S clients_grads (fst t)" for suid t
    proof -
      obtain cg' cost' k' where t: "t = (cg', cost', k')" by (cases t) auto
      have "suid \<in> fst ` set clients_grads" using that(1) sub by auto
      moreover have "uid \<in> fst ` set clients_grads" using uid by auto
      ultimately show ?thesis
        using share_to_conserved[of N S clients_grads cg' uid suid ev cost' k'] that(2) t
        by auto
    qed
    have "\<exists>s'. fold_err (share_to ev uid) (cts ! i) s = Inr s'
             \<and> conserved N S clients_grads (fst s')"
      by (rule fold_err_invariant[where P = "\<lambda>s. conserved N S clients_grads (fst s)"])
         (use s one in auto)
    then show ?thesis using xi il by simp
  qed
  have "\<exists>s'. fold_err ?body (enumerate 0 ?uids) (clients_grads, 0, 0) = Inr s'
           \<and> conserved N S clients_grads (fst s')"
    by (rule fold_err_invariant[where P = "\<lambda>s. conserved N S clients_grads (fst s)"])
       (use step conserved_refl[OF u] in auto)
  then obtain cg' cost k where
    f: "fold_err ?body (enumerate 0 ?uids) (clients_grads, 0, 0) = Inr (cg', cost, k)"
    and c: "conserved N S clients_grads cg'"
    by (metis fst_conv prod_cases3)
  have "MPC_perturb ev xi_val clients_grads = Inr (cg', cost / 2 ^ 20)"
    using sn cts(1) f by (simp add: MPC_perturb_def Let_def)
  moreover from c have "map fst cg' = map fst clients_grads" "uniform_cohort N S cg'"
    "\<forall>name j. cohort_sum cg' name j = cohort_sum clients_grads name j"
    by (simp_all add: conserved_def)
  ultimately show ?thesis by blast
qed

text \<open>
  The theorem at the example cohort with \<^verbatim>\<open>xi = 1\<close>: the sums 111 and 222 of the two
  entries of \<open>w\<close> are those of the perturbed gradients 3 + 9 + 99 and 4 + 19 + 199.
\<close>

theorem MPC_perturb_conserves_sum_witness:
  "uniform_cohort {''w''} (\<lambda>name. [2]) cg_ex \<and>
   sample_neighbor env_ex (length cg_ex) 1 = Inr [[1], [2], [0]] \<and>
   MPC_perturb env_ex 1 cg_ex =
     Inr ([(5, [(''w'', Tensor [2] [3, 4])]), (7, [(''w'', Tensor [2] [9, 19])]),
           (9, [(''w'', Tensor [2] [99, 199])])], 3 / 131072) \<and>
   (\<forall>name j. cohort_sum [(5, [(''w'', Tensor [2] [3, 4])]), (7, [(''w'', Tensor [2] [9, 19])]),
           (9, [(''w'', Tensor [2] [99, 199])])] name j = cohort_sum cg_ex name j)"
proof -
  have u: "uniform_cohort {''w''} (\<lambda>name. [2]) cg_ex"
    by (simp add: uniform_cohort_def cg_ex_def wf_tensor_def)
  have sn: "sample_neighbor env_ex (length cg_ex) 1 = Inr [[1], [2], [0]]"
    by (simp add: env_ex_def cg_ex_def upt_rec[of 0])
  have r: "length cg_ex \<le> length [[1], [2], [0::int]]" by (simp add: cg_ex_def)
  have c: "\<forall>row\<in>set [[1], [2], [0::int]]. \<forall>j\<in>set row.
             - int (length cg_ex) \<le> j \<and> j < int (length cg_ex)"
    by (simp add: cg_ex_def)
  have e: "MPC_perturb env_ex 1 cg_ex =
     Inr ([(5, [(''w'', Tensor [2] [3, 4])]), (7, [(''w'', Tensor [2] [9, 19])]),
           (9, [(''w'', Tensor [2] [99, 199])])], 3 / 131072)"
    by (simp add: MPC_perturb_def env_ex_def cg_ex_def share_to_def send_share_def dict_get_def
      np_index_def randn_like_def iadd_def tadd_def tsub_def enumerate_eq_zip upt_rec[of 0])
  from MPC_perturb_conserves_sum[OF u sn r c] e u sn show ?thesis by auto
qed

subsection \<open>Aggregation of the gradients\<close>

lemma agg_val_append: "agg_val a (xs @ ys) c = agg_val (agg_val a xs c) ys c"
  by (induction a xs c rule: agg_val.induct) simp_all

lemma tadd_scalar_zero [simp]: "tadd_scalar x 0 = x"
  by (simp add: tadd_scalar_def)

lemma shape_tdiv [simp]: "shape (tdiv t c) = shape t"
  by (simp add: tdiv_def)

lemma shape_tadd [simp]: "shape (tadd a b) = shape a"
  by (simp add: tadd_def)

lemma agg_add_value:
  assumes "agg_ok S agg" "shape g = S n"
  shows "\<exists>agg'. agg_add agg n (tdiv g c) = Inr agg' \<and> agg_ok S agg' \<and>
           (\<forall>m. map_of agg' m = (if m = n then agg_val (map_of agg n) [g] c else map_of agg m))"
proof (cases "map_of agg n")
  case None
  then have "agg_add agg n (tdiv g c) = Inr (AList.update n (tdiv g c) agg)"
    by (simp add: agg_add_def)
  moreover have "agg_ok S (AList.update n (tdiv g c) agg)"
    using assms by (simp add: agg_ok_def update_conv')
  ultimately show ?thesis using None by (simp add: update_conv')
next
  case (Some a)
  with assms have "shape a = S n" by (simp add: agg_ok_def)
  with Some assms(2) have
    "agg_add agg n (tdiv g c) = Inr (AList.update n (tadd a (tdiv g c)) agg)"
    by (simp add: agg_add_def iadd_def)
  moreover have "agg_ok S (AList.update n (tadd a (tdiv g c)) agg)"
    using assms \<open>shape a = S n\<close> by (simp add: agg_ok_def update_conv')
  ultimately show ?thesis using Some by (simp add: update_conv')
qed

lemma agg_user:
  assumes "distinct (map fst gd)" "\<forall>(n, t)\<in>set gd. shape t = S n" "agg_ok S agg"
  shows "\<exists>agg'. fold_err (\<lambda>(name, g) agg. agg_add agg name (tdiv g c)) gd agg = Inr agg' \<and>
           agg_ok S agg' \<and>
           (\<forall>m. map_of agg' m =
                  agg_val (map_of agg m) (case map_of gd m of None \<Rightarrow> [] | Some t \<Rightarrow> [t]) c)"
  using assms
proof (induction gd arbitrary: agg)
  case Nil
  then show ?case by simp
next
  case (Cons x gd)
  obtain n g where x: "x = (n, g)" by (cases x) auto
  from Cons.prems x have sg: "shape g = S n" by simp
  from agg_add_value[OF Cons.prems(3) sg, of c] obtain agg1 where
    a1: "agg_add agg n (tdiv g c) = Inr agg1" "agg_ok S agg1"
        "\<forall>m. map_of agg1 m = (if m = n then agg_val (map_of agg n) [g] c else map_of agg m)"
    by blast
  from Cons.prems x have d: "distinct (map fst gd)" and nn: "n \<notin> fst ` set gd"
    and sh: "\<forall>(n, t)\<in>set gd. shape t = S n" by auto
  from Cons.IH[OF d sh a1(2)] obtain agg2 where
    a2: "fold_err (\<lambda>(name, g) agg. agg_add agg name (tdiv g c)) gd agg1 = Inr agg2"
        "agg_ok S agg2"
        "\<forall>m. map_of agg2 m =
                agg_val (map_of agg1 m) (case map_of gd m of None \<Rightarrow> [] | Some t \<Rightarrow> [t]) c"
    by blast
  have none: "map_of gd n = None" using nn by (simp add: map_of_eq_None_iff)
  have "map_of agg2 m =
          agg_val (map_of agg m) (case map_of (x # gd) m of None \<Rightarrow> [] | Some t \<Rightarrow> [t]) c" for m
    using a2(3) a1(3) none x by simp
  with a1(1) a2(1,2) x show ?case by simp
qed

lemma agg_cohort:
  assumes "\<forall>(uid, gd)\<in>set cg. distinct (map fst gd) \<and> (\<forall>(n, t)\<in>set gd. shape t = S n)"
      and "agg_ok S agg"
  shows "\<exists>agg'. fold_err (\<lambda>(uid, grads_dict) agg.
                    fold_err (\<lambda>(name, g) agg. agg_add agg name (tdiv g c)) grads_dict agg)
                  cg agg = Inr agg' \<and>
           agg_ok S agg' \<and> (\<forall>m. map_of agg' m = agg_val (map_of agg m) (contribs cg m) c)"
  using assms
proof (induction cg arbitrary: agg)
  case Nil
  then show ?case by (simp add: contribs_def)
next
  case (Cons x cg)
  obtain uid gd where x: "x = (uid, gd)" by (cases x) auto
  from Cons.prems x have d: "distinct (map fst gd)" and sh: "\<forall>(n, t)\<in>set gd. shape t = S n"
    and rest: "\<forall>(uid, gd)\<in>set cg. distinct (map fst gd) \<and> (\<forall>(n, t)\<in>set gd. shape t = S n)"
    by auto
  from agg_user[OF d sh Cons.prems(2), of c] obtain agg1 where
    a1: "fold_err (\<lambda>(name, g) agg. agg_add agg name (tdiv g c)) gd agg = Inr agg1"
        "agg_ok S agg1"
        "\<forall>m. map_of agg1 m =
                agg_val (map_of agg m) (case map_of gd m of None \<Rightarrow> [] | Some t \<Rightarrow> [t]) c"
    by blast
  from Cons.IH[OF rest a1(2)] obtain agg2 where
    a2: "fold_err (\<lambda>(uid, grads_dict) agg.
                    fold_err (\<lambda>(name, g) agg. agg_add agg name (tdiv g c)) grads_dict agg)
                  cg agg1 = Inr agg2"
        "agg_ok S agg2" "\<forall>m. map_of agg2 m = agg_val (map_of agg1 m) (contribs cg m) c"
    by blast
  have "map_of agg2 m = agg_val (map_of agg m) (contribs (x # cg) m) c" for m
    using a2(3) a1(3) x by (simp add: contribs_def agg_val_append)
  with a1(1) a2(1,2) x show ?case by simp
qed

lemma map2_add_div:
  "map2 (+) (map (\<lambda>x. x / c) xs) (map (\<lambda>x. x / c) ys) = map (\<lambda>x. x / c) (map2 (+) xs ys)"
  for c :: real
  by (induction xs ys rule: list_induct2') (simp_all add: add_divide_distrib)

lemma tadd_tdiv: "tadd (tdiv a c) (tdiv t c) = tdiv (tadd a t) c"
  by (simp add: tadd_def tdiv_def map2_add_div)

lemma agg_val_Some_sum:
  "agg_val (Some (tdiv a c)) ts c = Some (tdiv (foldl tadd a ts) c)"
  by (induction ts arbitrary: a) (simp_all add: tadd_tdiv)

lemma agg_val_mean:
  assumes "ts \<noteq> []"
  shows "agg_val None ts (real (length ts)) = Some (tensor_mean ts)"
  using assms by (cases ts) (simp_all add: agg_val_Some_sum tensor_mean_def)

lemma contribs_all_present:
  assumes "\<forall>(uid, gd)\<in>set cg. name \<in> fst ` set gd"
  shows "contribs cg name = user_grads cg name"
  using assms
proof (induction cg)
  case Nil
  then show ?case by (simp add: contribs_def user_grads_def)
next
  case (Cons x cg)
  obtain uid gd where x: "x = (uid, gd)" by (cases x) auto
  with Cons.prems have "name \<in> fst ` set gd" by simp
  then obtain t where "map_of gd name = Some t" using key_present by fastforce
  with Cons x show ?case by (simp add: contribs_def user_grads_def)
qed

lemma map_err_map:
  assumes "\<And>x. x \<in> set xs \<Longrightarrow> f x = Inr (g x)"
  shows "map_err f xs = Inr (map g xs)"
  using assms by (induction xs) simp_all

lemma shape_tensor_mean:
  "shape (tensor_mean ts) = shape (hd ts)"
proof -
  have "shape (foldl tadd a ts) = shape a" for a ts by (induction ts arbitrary: a) simp_all
  then show ?thesis by (simp add: tensor_mean_def)
qed

text \<open>
  Claim C2. For a non-empty cohort of \<open>N\<close> users whose gradient dictionaries hold, for
  every name, tensors of one shape, and in which every user supplies a tensor for every
  parameter of the server model that requires gradients (of the shape of that parameter's
  accumulator when it has one), \<^verbatim>\<open>aggregate_gradients\<close> returns; it sets the accumulator
  of every such parameter to the arithmetic mean of the \<open>N\<close> tensors of the users when the
  accumulator was absent, adds that mean to it otherwise, and leaves every parameter that
  requires no gradient as it was.
\<close>

theorem aggregate_gradients_mean:
  assumes ne: "clients_grads \<noteq> []"
      and dicts: "\<forall>(uid, gd)\<in>set clients_grads.
                    distinct (map fst gd) \<and> (\<forall>(n, t)\<in>set gd. shape t = S n)"
      and params: "\<forall>(name, p)\<in>set named_parameters. requires_grad p \<longrightarrow>
                    (\<forall>(uid, gd)\<in>set clients_grads. name \<in> fst ` set gd) \<and>
                    (\<forall>g. grad p = Some g \<longrightarrow> shape g = S name)"
  shows "aggregate_gradients named_parameters clients_grads =
           Inr (map (\<lambda>(name, p).
                   if requires_grad p
                   then (name, p\<lparr>grad := Some
                           (case grad p of
                              None \<Rightarrow> tensor_mean (user_grads clients_grads name)
                            | Some g \<Rightarrow> tadd g (tensor_mean (user_grads clients_grads name)))\<rparr>)
                   else (name, p))
                 named_parameters)"
proof -
  let ?c = "real (length clients_grads)"
  let ?new = "\<lambda>(name, p).
                   if requires_grad p
                   then (name, p\<lparr>grad := Some
                           (case grad p of
                              None \<Rightarrow> tensor_mean (user_grads clients_grads name)
                            | Some g \<Rightarrow> tadd g (tensor_mean (user_grads clients_grads name)))\<rparr>)
                   else (name, p)"
  have ok0: "agg_ok S []" by (simp add: agg_ok_def)
  from agg_cohort[OF dicts ok0, of ?c] obtain agg where
    agg: "fold_err (\<lambda>(uid, grads_dict) agg.
                    fold_err (\<lambda>(name, g) agg. agg_add agg name (tdiv g ?c)) grads_dict agg)
                  clients_grads [] = Inr agg"
      and ok: "agg_ok S agg"
      and val: "\<forall>m. map_of agg m = agg_val (map_of [] m) (contribs clients_grads m) ?c"
    by blast
  have len: "length (user_grads clients_grads name) = length clients_grads" for name
    by (simp add: user_grads_def)
  have one: "set_grad agg x = Inr (?new x)" if x: "x \<in> set named_parameters" for x
  proof -
    obtain name p where xp: "x = (name, p)" by (cases x) auto
    show ?thesis
    proof (cases "requires_grad p")
      case False
      then show ?thesis using xp by (simp add: set_grad_def)
    next
      case True
      with params x xp have pres: "\<forall>(uid, gd)\<in>set clients_grads. name \<in> fst ` set gd"
        and sg: "\<forall>g. grad p = Some g \<longrightarrow> shape g = S name" by auto
      have ug: "user_grads clients_grads name \<noteq> []" using ne by (simp add: user_grads_def)
      have m: "map_of agg name = Some (tensor_mean (user_grads clients_grads name))"
        using val contribs_all_present[OF pres] agg_val_mean[OF ug] by (simp add: len)
      then have sm: "shape (tensor_mean (user_grads clients_grads name)) = S name"
        using ok by (simp add: agg_ok_def)
      show ?thesis
      proof (cases "grad p")
        case None
        with True m xp show ?thesis by (simp add: set_grad_def)
      next
        case (Some g)
        with sg have "shape g = S name" by simp
        with True m xp Some sm show ?thesis by (simp add: set_grad_def iadd_def)
      qed
    qed
  qed
  have "map_err (set_grad agg) named_parameters = Inr (map ?new named_parameters)"
    by (rule map_err_map) (rule one)
  with agg show ?thesis by (simp add: aggregate_gradients_def Let_def)
qed

text \<open>
  The theorem at the example: the mean of \<open>[1, 2]\<close> and \<open>[3, 6]\<close> initializes \<open>w\<close>, the
  mean \<open>[4, 6]\<close> of \<open>[3, 5]\<close> and \<open>[5, 7]\<close> is added to \<open>b\<close>, and \<open>c\<close> is untouched.
\<close>

theorem aggregate_gradients_mean_witness:
  "cg2_ex \<noteq> [] \<and>
   aggregate_gradients params_ex cg2_ex =
     Inr [(''w'', \<lparr>requires_grad = True, grad = Some (Tensor [2, 1] [2, 4])\<rparr>),
          (''b'', \<lparr>requires_grad = True, grad = Some (Tensor [2] [5, 7])\<rparr>),
          (''c'', \<lparr>requires_grad = False, grad = None\<rparr>)]"
proof -
  have ne: "cg2_ex \<noteq> []" by (simp add: cg2_ex_def)
  have d: "\<forall>(uid, gd)\<in>set cg2_ex. distinct (map fst gd) \<and>
             (\<forall>(n, t)\<in>set gd. shape t = (\<lambda>n. if n = ''w'' then [2, 1] else [2]) n)"
    by (simp add: cg2_ex_def)
  have p: "\<forall>(name, p)\<in>set params_ex. requires_grad p \<longrightarrow>
                    (\<forall>(uid, gd)\<in>set cg2_ex. name \<in> fst ` set gd) \<and>
                    (\<forall>g. grad p = Some g \<longrightarrow> shape g = (\<lambda>n. if n = ''w'' then [2, 1] else [2]) name)"
    by (simp add: params_ex_def cg2_ex_def)
  show ?thesis
    using ne aggregate_gradients_mean[OF ne d p]
    by (simp add: params_ex_def cg2_ex_def user_grads_def tensor_mean_def tadd_def tdiv_def)
qed

subsection \<open>The communication ledger of a round\<close>

lemma count_update_full_size:
  "count_update_communication_cost ev c clients_grads =
     (\<Sum>(uid, grads_dict)\<leftarrow>clients_grads. \<Sum>(name, g)\<leftarrow>grads_dict. get_size ev g) / 2 ^ 20"
proof -
  have inner: "fold (\<lambda>(name, g) cost. cost + get_size ev g * 1) gd a0 =
                 a0 + (\<Sum>(name, g)\<leftarrow>gd. get_size ev g)" for gd and a0 :: real
    by (induction gd arbitrary: a0) (simp_all add: case_prod_unfold)
  have outer: "fold (\<lambda>(uid, gd) cost. fold (\<lambda>(name, g) cost. cost + get_size ev g * 1) gd cost)
                 cg a0 = a0 + (\<Sum>(uid, gd)\<leftarrow>cg. \<Sum>(name, g)\<leftarrow>gd. get_size ev g)"
    for cg and a0 :: real
  proof (induction cg arbitrary: a0)
    case Nil
    then show ?case by simp
  next
    case (Cons x cg)
    obtain uid gd where x: "x = (uid, gd)" by (cases x) auto
    show ?case unfolding x using Cons[of "a0 + (\<Sum>(name, g)\<leftarrow>gd. get_size ev g)"] inner[of gd a0]
      by simp
  qed
  show ?thesis
    using outer[of clients_grads 0]
    by (simp add: count_update_communication_cost_def Let_def)
qed

text \<open>
  With the MPC perturbation, when the perturbation returns: the round's ledger entry is
  the download cost, the perturbation cost and the upload cost, divided by the cohort
  size, and the upload cost counts every tensor of the sent gradients in full.
\<close>

lemma train_clients_MPC_ledger:
  assumes "perturb_method c = ''MPC''" and "uids \<noteq> []"
      and "MPC_perturb ev (xi c)
             (fold (\<lambda>uid cg. AList.update uid (local_grad ev sd uid dropout) cg) uids [])
           = Inr (perturb_grads, cost)"
  shows "train_clients ev c uids sd dropout =
           (c\<lparr>communication_cost := communication_cost c @
                 [(get_size_state ev sd * real (length uids) / 2 ^ 20 + cost
                    + (\<Sum>(uid, grads_dict)\<leftarrow>perturb_grads. \<Sum>(name, g)\<leftarrow>grads_dict. get_size ev g)
                        / 2 ^ 20)
                  / real (length uids)]\<rparr>,
            Inr perturb_grads)"
  using assms by (simp add: train_clients_def Let_def count_update_full_size)

text \<open>
  Without the MPC perturbation the call raises for every cohort: the ledger keeps the
  download cost that was appended first (plus a user id when the cohort has two users),
  never divided by the cohort size.
\<close>

lemma train_clients_identity_raises:
  assumes "perturb_method c \<noteq> ''MPC''"
  shows "\<exists>e. snd (train_clients ev c uids sd dropout) = Inl e"
  using assms by (simp add: train_clients_def Let_def split: list.splits)

text \<open>
  Claim C8 at a failing input: clients configured without perturbation and a cohort of
  three users. \<^verbatim>\<open>perturb_fuc\<close> returns the bare dictionary, line 106 cannot unpack its three
  keys into two names, and the call raises \<^verbatim>\<open>ValueError\<close>; the ledger entry of the round
  stays at the download cost \<open>16 * 3 / 2 ^ 20\<close>, with no upload cost added and no division
  by the cohort size.
\<close>

theorem train_clients_identity_fails:
  "train_clients env_ex clients_none [0, 1, 2] sd_ex 0 =
     (clients_none\<lparr>communication_cost := [3 / 65536]\<rparr>, Inl ValueError)"
  by (simp add: train_clients_def env_ex_def clients_none_def sd_ex_def Let_def)

lemma train_clients_MPC_example:
  "train_clients env_ex clients_mpc [0, 1, 2] sd_ex 0 =
     (clients_mpc\<lparr>communication_cost := [1 / 16384]\<rparr>,
      Inr [(0, [(''w'', Tensor [2, 2] [4, 4, 5, 6]), (''b'', Tensor [2] [5, 4])]),
           (1, [(''w'', Tensor [2, 2] [- 1, - 2, - 1, 0]), (''b'', Tensor [2] [- 1, - 1])]),
           (2, [(''w'', Tensor [2, 2] [0, - 2, - 1, 0]), (''b'', Tensor [2] [- 1, 0])])])"
  by (simp add: train_clients_def env_ex_def clients_mpc_def sd_ex_def Let_def
      count_update_communication_cost_def
      MPC_perturb_def share_to_def send_share_def dict_get_def
      np_index_def randn_like_def iadd_def tadd_def tsub_def enumerate_eq_zip upt_rec[of 0])

subsection \<open>The restoration attack\<close>

lemma mask_map_pred:
  "np_mask xs (map P ls) = map fst (filter (\<lambda>(x, l). P l) (zip xs ls))"
proof -
  have "zip xs (map P ls) = map (\<lambda>(x, l). (x, P l)) (zip xs ls)"
    by (simp add: zip_map2)
  then show ?thesis
    by (simp add: np_mask_def filter_map comp_def case_prod_unfold)
qed

lemma filter_zip_labels_cong:
  assumes "\<And>l. l \<in> set ls \<Longrightarrow> P l = Q l"
  shows "filter (\<lambda>(x, l). P l) (zip xs ls) = filter (\<lambda>(x, l). Q l) (zip xs ls)"
  by (rule filter_cong) (auto dest: set_zip_rightD simp: assms)

lemma xor_one_label: "l \<le> 1 \<Longrightarrow> (xor l 1 \<noteq> 0) = (l = (0::nat))"
  by (cases "l = 0") (simp_all add: le_Suc_eq)

lemma mask_select1:
  assumes "set labels \<subseteq> {0, 1}"
  shows "np_mask xs (astype_bool labels) = cluster_of xs labels 1"
proof -
  have "filter (\<lambda>(x, l). l \<noteq> 0) (zip xs labels) = filter (\<lambda>(x, l). l = 1) (zip xs labels)"
    by (rule filter_zip_labels_cong) (use assms in auto)
  then show ?thesis unfolding astype_bool_def mask_map_pred cluster_of_def by simp
qed

lemma mask_select0:
  "np_mask xs (logical_not (astype_bool labels)) = cluster_of xs labels 0"
proof -
  have "logical_not (astype_bool labels) = map (\<lambda>l. l = 0) labels"
    by (simp add: logical_not_def astype_bool_def)
  then show ?thesis unfolding mask_map_pred cluster_of_def by (simp add: mask_map_pred)
qed

lemma mask_flipped:
  assumes "set labels \<subseteq> {0, 1}"
  shows "np_mask xs (astype_bool (xor_1 labels)) = cluster_of xs labels 0"
proof -
  have e: "astype_bool (xor_1 labels) = map (\<lambda>l. xor l 1 \<noteq> 0) labels"
    by (simp add: astype_bool_def xor_1_def comp_def)
  have "filter (\<lambda>(x, l). xor l 1 \<noteq> 0) (zip xs labels) = filter (\<lambda>(x, l). l = 0) (zip xs labels)"
    by (rule filter_zip_labels_cong) (use assms in \<open>auto simp: xor_one_label\<close>)
  then show ?thesis unfolding e mask_map_pred cluster_of_def by simp
qed

lemma fold_set_one:
  "length (fold (\<lambda>p x. x[p := 1]) pos x) = length x"
  "i < length x \<Longrightarrow>
     fold (\<lambda>p x. x[p := 1]) pos x ! i = (if i \<in> set pos then 1 else x ! i)"
  for x :: "real list"
  by (induction pos arbitrary: x) (auto simp: nth_list_update)

lemma set_ones_zeros:
  assumes "\<forall>p\<in>set pos. p < n"
  shows "\<exists>x. set_ones (replicate n 0) pos = Inr x \<and> length x = n \<and>
           (\<forall>i<n. x ! i = (if i \<in> set pos then 1 else 0))"
  using assms by (simp add: set_ones_def list_all_iff fold_set_one)

lemma nonzero_bound: "p \<in> set (nonzero xs) \<Longrightarrow> p < length xs"
  by (simp add: nonzero_def)

lemma rows_matrix: "shape t = [n, c] \<Longrightarrow> length (rows t) = n"
  by (simp add: rows_def)

lemma np_sum_axis1_matrix:
  "shape t = [n, c] \<Longrightarrow> np_sum_axis1 t = Inr (map sum_list (rows t))"
  by (simp add: np_sum_axis1_def)

lemma cluster_of_subset: "set (cluster_of xs labels l) \<subseteq> set xs"
  by (auto simp: cluster_of_def dest: set_zip_leftD)

lemma cluster_norm_nonempty:
  "rs \<noteq> [] \<Longrightarrow> np_mean (map l2_norm rs) = Some (mean_norm rs)"
  by (simp add: np_mean_def mean_norm_def)

text \<open>The prediction built by lines 199 to 210 once the labels are known.\<close>

lemma cluster_predict_unfold:
  assumes sh: "shape dec_grads = [n, c]"
      and len: "length (kmeans (nonzero_rows dec_grads)) = length (nonzero_rows dec_grads)"
      and two: "2 \<le> length (nonzero_rows dec_grads)"
      and lab: "set (kmeans (nonzero_rows dec_grads)) \<subseteq> {0, 1}"
  shows "cluster_predict n kmeans dec_grads =
           set_ones (replicate n 0)
             (cluster_of (nonzero_idx dec_grads) (kmeans (nonzero_rows dec_grads))
                (if float_less
                      (np_mean (map l2_norm (cluster_of (nonzero_rows dec_grads)
                                               (kmeans (nonzero_rows dec_grads)) 1)))
                      (np_mean (map l2_norm (cluster_of (nonzero_rows dec_grads)
                                               (kmeans (nonzero_rows dec_grads)) 0)))
                 then 0 else 1))"
proof -
  have nz: "map (\<lambda>i. rows dec_grads ! i) (nonzero (map sum_list (rows dec_grads)))
              = nonzero_rows dec_grads"
    by (simp add: nonzero_rows_def nonzero_idx_def)
  have l1: "length (astype_bool xs) = length xs" for xs by (simp add: astype_bool_def)
  show ?thesis
    unfolding cluster_predict_def np_sum_axis1_matrix[OF sh] Let_def sum.case nz
      cluster_norm_def mask_select0 mask_select1[OF lab]
    using len two
    by (simp add: mask_flipped[OF lab] mask_select1[OF lab] nonzero_idx_def)
qed

lemma cluster_idx_bound:
  assumes "shape dec_grads = [n, c]"
  shows "\<forall>p\<in>set (cluster_of (nonzero_idx dec_grads) labels l). p < n"
proof
  fix p assume "p \<in> set (cluster_of (nonzero_idx dec_grads) labels l)"
  then have "p \<in> set (nonzero_idx dec_grads)" using cluster_of_subset by fastforce
  then have "p < length (map sum_list (rows dec_grads))"
    unfolding nonzero_idx_def by (rule nonzero_bound)
  then show "p < n" using rows_matrix[OF assms] by simp
qed

lemma cluster_partition:
  assumes "length labels = length xs" "set labels \<subseteq> {0, 1}"
  shows "length (cluster_of xs labels 0) + length (cluster_of xs labels 1) = length xs"
proof -
  have "filter (\<lambda>(x, l). l = 1) (zip xs labels) = filter (\<lambda>(x, l). \<not> l = 0) (zip xs labels)"
    by (rule filter_zip_labels_cong) (use assms in auto)
  then have "length (cluster_of xs labels 0) + length (cluster_of xs labels 1)
               = length (zip xs labels)"
    using sum_length_filter_compl[of "\<lambda>(x, l). l = 0" "zip xs labels"]
    by (simp add: cluster_of_def case_prod_unfold)
  then show ?thesis using assms by simp
qed

text \<open>
  The vector \<^verbatim>\<open>x_pred\<close> at line 210, before the refinement by the encoder gradient. Take
  a decoder gradient with one row per item, the positions \<open>idx\<close> and the rows \<open>nz\<close> of
  non-zero row sum, and the labels the clustering gives these rows: one label 0 or 1 per
  row, both clusters non-empty, with different means of the row-wise L2 norms. Then lines
  199 to 210 build a vector over all items that is 1 exactly at the items of the cluster
  with the larger mean norm and 0 at every other item, whichever of the two labels the
  clustering gave to the cluster of larger norm.
\<close>

lemma cluster_predict_larger_norm:
  assumes sh: "shape dec_grads = [n, c]"
      and idx: "idx = nonzero_idx dec_grads" and nz: "nz = nonzero_rows dec_grads"
      and labels: "labels = kmeans nz"
      and len: "length labels = length nz" and lab: "set labels \<subseteq> {0, 1}"
      and ne0: "cluster_of nz labels 0 \<noteq> []" and ne1: "cluster_of nz labels 1 \<noteq> []"
      and dist: "mean_norm (cluster_of nz labels 1) \<noteq> mean_norm (cluster_of nz labels 0)"
  shows "\<exists>x_pred. cluster_predict n kmeans dec_grads = Inr x_pred \<and> length x_pred = n \<and>
           (\<forall>i<n. x_pred ! i =
              (if i \<in> set (cluster_of idx labels
                             (if mean_norm (cluster_of nz labels 1)
                                   > mean_norm (cluster_of nz labels 0) then 1 else 0))
               then 1 else 0))"
proof -
  have "cluster_of nz labels 0 \<noteq> [] \<and> cluster_of nz labels 1 \<noteq> []" using ne0 ne1 by simp
  then have "1 \<le> length (cluster_of nz labels 0)" "1 \<le> length (cluster_of nz labels 1)"
    by (simp_all add: Suc_le_eq)
  with cluster_partition[OF len lab] have "2 \<le> length nz" by linarith
  then have two: "2 \<le> length (nonzero_rows dec_grads)" by (simp add: nz)
  have len': "length (kmeans (nonzero_rows dec_grads)) = length (nonzero_rows dec_grads)"
    using len labels nz by simp
  have lab': "set (kmeans (nonzero_rows dec_grads)) \<subseteq> {0, 1}" using lab labels nz by simp
  let ?big = "if mean_norm (cluster_of nz labels 1) > mean_norm (cluster_of nz labels 0)
              then 1 else (0::nat)"
  have fl: "(if float_less (np_mean (map l2_norm (cluster_of nz labels 1)))
                           (np_mean (map l2_norm (cluster_of nz labels 0)))
             then 0 else 1) = ?big"
    unfolding cluster_norm_nonempty[OF ne0] cluster_norm_nonempty[OF ne1] float_less_def
    using dist by simp
  have cp: "cluster_predict n kmeans dec_grads =
              set_ones (replicate n 0) (cluster_of idx labels ?big)"
    using cluster_predict_unfold[where kmeans = kmeans, OF sh len' two lab'] fl
    unfolding idx nz labels by simp
  from set_ones_zeros[OF cluster_idx_bound[OF sh, of labels ?big]]
  show ?thesis unfolding cp idx by simp
qed


text \<open>The example gradients, row by row.\<close>

lemma sqrt_25: "sqrt 25 = 5"
  using real_sqrt_abs[of 5] by simp

lemma dec_ex_rows: "rows dec_ex = [[0, 0], [3, 4], [0, 0], [0, 1]]"
  by (simp add: rows_def dec_ex_def upt_rec[of 0] numeral_nat)

lemma dec_ex_idx: "nonzero_idx dec_ex = [1, 3]"
  by (simp add: nonzero_idx_def nonzero_def dec_ex_rows upt_rec[of 0] numeral_nat)

lemma dec_ex_nz: "nonzero_rows dec_ex = [[3, 4], [0, 1]]"
  by (simp add: nonzero_rows_def dec_ex_idx dec_ex_rows numeral_nat)




lemma list4:
  assumes "length x = 4"
  shows "x = [x ! 0, x ! 1, x ! 2, x ! 3]"
  using assms by (auto simp: list_eq_iff_nth_eq numeral_nat less_Suc_eq)


text \<open>
  The surrounding loop body: with different encoder and decoder names, an encoder
  gradient of at least one dimension and the refinement off, the prediction of a user is
  the one built from the clustering of the oriented decoder gradient.
\<close>

lemma restore_user_decoder_only:
  assumes "enc_name s \<noteq> dec_name s"
      and "map_of grads_dict (dec_name s) = Some dec_grads" "shape dec_grads = d0 # ds"
      and "map_of grads_dict (enc_name s) = Some euc" "shape euc \<noteq> []"
      and "\<not> use_enc_grad s"
  shows "restore_user s kmeans grads_dict =
           cluster_predict (n_items s) kmeans
             (if d0 \<noteq> n_items s then np_T dec_grads else dec_grads)"
  using assms
  by (cases "shape euc")
     (simp_all add: restore_user_def dict_get_def Let_def split: sum.splits)

text \<open>
  With equal encoder and decoder names the loop body raises for every user, whatever the
  gradients are: \<^verbatim>\<open>euc_grads\<close> is \<^verbatim>\<open>None\<close> and line 197 reads its \<^verbatim>\<open>shape\<close>.
\<close>

lemma restore_user_same_names:
  assumes "enc_name s = dec_name s"
  shows "\<exists>e. restore_user s kmeans grads_dict = Inl e"
  using assms
  by (simp add: restore_user_def dict_get_def Let_def split: option.splits list.splits)

lemma restore_user_same_names_AttributeError:
  assumes "enc_name s = dec_name s"
      and "map_of grads_dict (dec_name s) = Some dec_grads" "shape dec_grads \<noteq> []"
  shows "restore_user s kmeans grads_dict = Inl AttributeError"
  using assms
  by (simp add: restore_user_def dict_get_def Let_def split: list.splits)

lemma restore_from_gradient_same_names:
  assumes "enc_name s = dec_name s"
  shows "\<exists>e. restore_from_gradient s kmeans evaluate_restore clients_grads = Inl e"
proof (cases clients_grads)
  case Nil
  then show ?thesis by (simp add: restore_from_gradient_def)
next
  case (Cons x xs)
  obtain uid gd where x: "x = (uid, gd)" by (cases x) auto
  from restore_user_same_names[OF assms, of kmeans gd] obtain e where
    "restore_user s kmeans gd = Inl e" by blast
  with Cons x show ?thesis by (simp add: restore_from_gradient_def)
qed

text \<open>
  Claim C3 at a failing input: the encoder and the decoder name are both
  \<open>decoder.weight\<close> and the cohort is one user with the example gradient. The attack
  raises \<^verbatim>\<open>AttributeError\<close> at line 197 and produces no prediction, although line 194 sets
  \<^verbatim>\<open>euc_grads\<close> to \<^verbatim>\<open>None\<close> for this very case and line 211 tests for it.
\<close>

theorem restore_from_gradient_same_names_fails:
  "enc_name server_same = dec_name server_same \<and>
   restore_from_gradient server_same kmeans_ex (\<lambda>uid x_pred. x_pred)
     [(0, [(''decoder.weight'', dec_ex)])] = Inl AttributeError"
  by (simp add: restore_from_gradient_def restore_user_def dict_get_def server_same_def
        server_ex_def dec_ex_def)

text \<open>
  The same gradient under a configuration whose names differ: the attack returns the
  prediction of the clustering.
\<close>

lemma cluster_predict_dec_ex: "cluster_predict 4 kmeans_ex dec_ex = Inr [0, 1, 0, 0]"
proof -
  have sh: "shape dec_ex = [4, 2]" by (simp add: dec_ex_def)
  have km: "kmeans_ex (nonzero_rows dec_ex) = [0, 1]" by (simp add: kmeans_ex_def dec_ex_nz)
  have len: "length (kmeans_ex (nonzero_rows dec_ex)) = length (nonzero_rows dec_ex)"
    by (simp add: kmeans_ex_def)
  have two: "2 \<le> length (nonzero_rows dec_ex)" by (simp add: dec_ex_nz)
  have lab: "set (kmeans_ex (nonzero_rows dec_ex)) \<subseteq> {0, 1}" unfolding km by simp
  have c0: "cluster_of [[3, 4], [0, 1::real]] [0, 1] 0 = [[3, 4]]"
    and c1: "cluster_of [[3, 4], [0, 1::real]] [0, 1] 1 = [[0, 1]]"
    and i0: "cluster_of [1, 3::nat] [0, 1] 0 = [1]"
    by (simp_all add: cluster_of_def)
  have fl: "float_less (np_mean (map l2_norm [[0, 1]])) (np_mean (map l2_norm [[3, 4]]))"
    by (simp add: float_less_def np_mean_def l2_norm_def sqrt_25)
  have km': "kmeans_ex [[3, 4], [0, 1]] = [0, 1]" by (simp add: kmeans_ex_def)
  have "cluster_predict 4 kmeans_ex dec_ex = set_ones (replicate 4 0) [1]"
    unfolding cluster_predict_unfold[where kmeans = kmeans_ex, OF sh len two lab]
    unfolding dec_ex_nz dec_ex_idx km' c0 c1
    using fl by (simp add: cluster_of_def)
  then show ?thesis by (simp add: set_ones_def numeral_nat)
qed

lemma restore_from_gradient_example:
  "restore_from_gradient server_ex kmeans_ex (\<lambda>uid x_pred. x_pred)
     [(0, [(''decoder.weight'', dec_ex), (''encoder.fc1.weight'', Tensor [2, 4] [0, 1, 0, 0, 0, 0, 0, 0])])]
   = Inr [[0, 1, 0, 0]]"
proof -
  have "restore_user server_ex kmeans_ex
          [(''decoder.weight'', dec_ex), (''encoder.fc1.weight'', Tensor [2, 4] [0, 1, 0, 0, 0, 0, 0, 0])]
        = cluster_predict (n_items server_ex) kmeans_ex
            (if 4 \<noteq> n_items server_ex then np_T dec_ex else dec_ex)"
    by (rule restore_user_decoder_only[where ds = "[2]" and euc = "Tensor [2, 4] [0, 1, 0, 0, 0, 0, 0, 0]"])
       (simp_all add: server_ex_def dec_ex_def)
  then show ?thesis
    by (simp add: restore_from_gradient_def server_ex_def cluster_predict_dec_ex)
qed

subsection \<open>The prediction handed to the evaluation\<close>

text \<open>
  Lines 195 to 198 and 211 to 213: the orientation of the two gradients, and the
  assignment \<^verbatim>\<open>x_pred[pos] = 1\<close> on a prediction that is already built.
\<close>

lemma set_ones_over:
  assumes "length x = n" "\<forall>p\<in>set pos. p < n"
  shows "\<exists>y. set_ones x pos = Inr y \<and> length y = n \<and>
           (\<forall>i<n. y ! i = (if i \<in> set pos then 1 else x ! i))"
  using assms by (simp add: set_ones_def list_all_iff fold_set_one)

lemma shape_np_T: "shape t = [a, b] \<Longrightarrow> shape (np_T t) = [b, a]"
  by (simp add: np_T_def)

lemma shape_oriented:
  assumes "shape t = [a, b]" "a = n \<or> b = n"
  shows "\<exists>c. shape (if a \<noteq> n then np_T t else t) = [n, c]"
  using assms by (auto simp: shape_np_T)

lemma nonzero_idx_bound:
  assumes "shape t = [n, c]"
  shows "\<forall>p\<in>set (nonzero_idx t). p < n"
proof
  fix p assume "p \<in> set (nonzero_idx t)"
  then have "p < length (map sum_list (rows t))"
    unfolding nonzero_idx_def by (rule nonzero_bound)
  then show "p < n" using rows_matrix[OF assms] by simp
qed

text \<open>
  The loop body for a user whose gradient mapping has both names, with tensors of at
  least one dimension: the clustering of the oriented decoder gradient, then the
  refinement when \<^verbatim>\<open>use_enc_grad\<close> is set.
\<close>

lemma restore_user_unfold:
  assumes "enc_name s \<noteq> dec_name s"
      and "map_of grads_dict (dec_name s) = Some dec_raw" "shape dec_raw = d0 # ds"
      and "map_of grads_dict (enc_name s) = Some euc_raw" "shape euc_raw = e0 # es"
  shows "restore_user s kmeans grads_dict =
           (case cluster_predict (n_items s) kmeans
                   (if d0 \<noteq> n_items s then np_T dec_raw else dec_raw) of
              Inl e \<Rightarrow> Inl e
            | Inr x_pred \<Rightarrow>
                if use_enc_grad s then
                  (case np_sum_axis1 (if e0 \<noteq> n_items s then np_T euc_raw else euc_raw) of
                     Inl e \<Rightarrow> Inl e
                   | Inr row_sums \<Rightarrow> set_ones x_pred (nonzero row_sums))
                else Inr x_pred)"
  using assms by (simp add: restore_user_def dict_get_def Let_def)

text \<open>
  Claim C4 (as amended: the labels of the attack are those of the clustering, together
  with the encoder-based refinement when it is enabled). Take a configuration whose
  encoder and decoder names differ and a user whose decoder and encoder gradients are
  matrices, the decoder gradient with one row per item in one of its two orientations,
  and the encoder gradient too when \<^verbatim>\<open>use_enc_grad\<close> is set. Let \<open>dec_grads\<close> and
  \<open>euc_grads\<close> be the two gradients after the orientation of lines 195 to 198, \<open>idx\<close>
  and \<open>nz\<close> the positions and the rows of \<open>dec_grads\<close> of non-zero row sum, and
  \<open>labels\<close> what the clustering gives these rows: one label 0 or 1 per row, both
  clusters non-empty, with different means of the row-wise L2 norms. Then the loop body of
  \<^verbatim>\<open>restore_from_gradient\<close> raises nothing, and the prediction it hands to
  \<^verbatim>\<open>evaluate_restore\<close> has one entry per item: 1 at the items of the cluster with the
  larger mean norm, whichever of the two labels the clustering gave it, 1 also at the
  items whose encoder-gradient row sum is not zero when \<^verbatim>\<open>use_enc_grad\<close> is set (lines
  211 to 213), and 0 at every other item. With \<^verbatim>\<open>use_enc_grad\<close> off the items labelled 1
  are exactly those of the cluster of larger norm, and the items of the other cluster and
  those excluded for a zero row sum are labelled 0.
\<close>

theorem restore_user_larger_norm:
  assumes names: "enc_name s \<noteq> dec_name s"
      and dec: "map_of grads_dict (dec_name s) = Some dec_raw"
      and enc: "map_of grads_dict (enc_name s) = Some euc_raw"
      and dsh: "shape dec_raw = [d0, d1]" and dn: "d0 = n_items s \<or> d1 = n_items s"
      and esh: "shape euc_raw = [e0, e1]"
      and en: "use_enc_grad s \<longrightarrow> e0 = n_items s \<or> e1 = n_items s"
      and dor: "dec_grads = (if d0 \<noteq> n_items s then np_T dec_raw else dec_raw)"
      and eor: "euc_grads = (if e0 \<noteq> n_items s then np_T euc_raw else euc_raw)"
      and idx: "idx = nonzero_idx dec_grads" and nz: "nz = nonzero_rows dec_grads"
      and labels: "labels = kmeans nz"
      and len: "length labels = length nz" and lab: "set labels \<subseteq> {0, 1}"
      and ne0: "cluster_of nz labels 0 \<noteq> []" and ne1: "cluster_of nz labels 1 \<noteq> []"
      and dist: "mean_norm (cluster_of nz labels 1) \<noteq> mean_norm (cluster_of nz labels 0)"
  shows "\<exists>x_pred. restore_user s kmeans grads_dict = Inr x_pred \<and>
           length x_pred = n_items s \<and>
           (\<forall>i<n_items s. x_pred ! i =
              (if i \<in> set (cluster_of idx labels
                             (if mean_norm (cluster_of nz labels 1)
                                   > mean_norm (cluster_of nz labels 0) then 1 else 0))
                  \<or> use_enc_grad s \<and> i \<in> set (nonzero_idx euc_grads)
               then 1 else 0))"
proof -
  let ?n = "n_items s"
  let ?big = "cluster_of idx labels
                (if mean_norm (cluster_of nz labels 1) > mean_norm (cluster_of nz labels 0)
                 then 1 else 0)"
  from shape_oriented[OF dsh dn] obtain c where sh: "shape dec_grads = [?n, c]"
    unfolding dor by blast
  from cluster_predict_larger_norm[where kmeans = kmeans, OF sh idx nz labels len lab ne0 ne1 dist]
  obtain x0 where x0: "cluster_predict ?n kmeans dec_grads = Inr x0" "length x0 = ?n"
    "\<forall>i<?n. x0 ! i = (if i \<in> set ?big then 1 else 0)"
    by blast
  have ru: "restore_user s kmeans grads_dict =
              (if use_enc_grad s then
                 (case np_sum_axis1 euc_grads of
                    Inl e \<Rightarrow> Inl e
                  | Inr row_sums \<Rightarrow> set_ones x0 (nonzero row_sums))
               else Inr x0)"
    unfolding restore_user_unfold[OF names dec dsh enc esh] using x0(1)
    unfolding dor eor by simp
  show ?thesis
  proof (cases "use_enc_grad s")
    case False
    then show ?thesis using ru x0 by simp
  next
    case True
    with en have "e0 = ?n \<or> e1 = ?n" by simp
    from shape_oriented[OF esh this] obtain c' where esh': "shape euc_grads = [?n, c']"
      unfolding eor by blast
    have ru': "restore_user s kmeans grads_dict = set_ones x0 (nonzero_idx euc_grads)"
      unfolding ru np_sum_axis1_matrix[OF esh'] nonzero_idx_def using True by simp
    from set_ones_over[OF x0(2) nonzero_idx_bound[OF esh']]
    obtain y where y: "set_ones x0 (nonzero_idx euc_grads) = Inr y" "length y = ?n"
      "\<forall>i<?n. y ! i = (if i \<in> set (nonzero_idx euc_grads) then 1 else x0 ! i)"
      by blast
    have "\<forall>i<?n. y ! i = (if i \<in> set ?big \<or> use_enc_grad s \<and> i \<in> set (nonzero_idx euc_grads)
                            then 1 else 0)"
      using y(3) x0(3) True by simp
    with y(1,2) ru' show ?thesis by simp
  qed
qed

text \<open>The example encoder gradient after its orientation, and the attack on the example user.\<close>

lemma euc_ex_T: "np_T euc_ex = Tensor [4, 2] [1, 0, 0, 0, 0, 0, 0, 0]"
  by (simp add: np_T_def euc_ex_def upt_rec[of 0] numeral_nat)

lemma euc_ex_idx: "nonzero_idx (np_T euc_ex) = [0]"
  by (simp add: euc_ex_T nonzero_idx_def nonzero_def rows_def upt_rec[of 0] numeral_nat)

lemma restore_user_refined_example:
  "restore_user server_enc kmeans_ex grads_ex = Inr [1, 1, 0, 0]"
proof -
  have "restore_user server_enc kmeans_ex grads_ex =
          (case cluster_predict (n_items server_enc) kmeans_ex
                   (if 4 \<noteq> n_items server_enc then np_T dec_ex else dec_ex) of
              Inl e \<Rightarrow> Inl e
            | Inr x_pred \<Rightarrow>
                if use_enc_grad server_enc then
                  (case np_sum_axis1 (if 2 \<noteq> n_items server_enc then np_T euc_ex else euc_ex) of
                     Inl e \<Rightarrow> Inl e
                   | Inr row_sums \<Rightarrow> set_ones x_pred (nonzero row_sums))
                else Inr x_pred)"
    by (rule restore_user_unfold[where ds = "[2]" and es = "[4]"])
       (simp_all add: server_enc_def server_ex_def grads_ex_def dec_ex_def euc_ex_def)
  moreover have "n_items server_enc = 4" "use_enc_grad server_enc"
    by (simp_all add: server_enc_def server_ex_def)
  moreover have "np_sum_axis1 (np_T euc_ex) = Inr (map sum_list (rows (np_T euc_ex)))"
    by (rule np_sum_axis1_matrix[where n = 4 and c = 2]) (simp add: euc_ex_T)
  moreover have "set_ones [0, 1, 0, 0] (nonzero_idx (np_T euc_ex)) = Inr [1, 1, 0, 0]"
    unfolding euc_ex_idx by (simp add: set_ones_def)
  ultimately show ?thesis
    by (simp add: cluster_predict_dec_ex nonzero_idx_def)
qed

text \<open>
  The theorem at the example, with \<^verbatim>\<open>use_enc_grad\<close> set: items 1 and 3 have decoder
  gradient rows of norms 5 and 1, the clustering labels the row of norm 5 with 0, so the
  cluster of larger norm is item 1; the encoder gradient has a non-zero row sum at item 0
  only; the prediction marks items 0 and 1.
\<close>

theorem restore_user_larger_norm_witness:
  "enc_name server_enc \<noteq> dec_name server_enc \<and> use_enc_grad server_enc \<and>
   n_items server_enc = 4 \<and>
   map_of grads_ex (dec_name server_enc) = Some dec_ex \<and> shape dec_ex = [4, 2] \<and>
   map_of grads_ex (enc_name server_enc) = Some euc_ex \<and> shape euc_ex = [2, 4] \<and>
   nonzero_idx dec_ex = [1, 3] \<and> nonzero_rows dec_ex = [[3, 4], [0, 1]] \<and>
   kmeans_ex [[3, 4], [0, 1]] = [0, 1] \<and>
   mean_norm (cluster_of [[3, 4], [0, 1]] [0, 1] 0) = 5 \<and>
   mean_norm (cluster_of [[3, 4], [0, 1]] [0, 1] 1) = 1 \<and>
   nonzero_idx (np_T euc_ex) = [0] \<and>
   restore_user server_enc kmeans_ex grads_ex = Inr [1, 1, 0, 0]"
proof -
  have n: "n_items server_enc = 4" and u: "use_enc_grad server_enc"
    and names: "enc_name server_enc \<noteq> dec_name server_enc"
    by (simp_all add: server_enc_def server_ex_def)
  have dec: "map_of grads_ex (dec_name server_enc) = Some dec_ex"
    and enc: "map_of grads_ex (enc_name server_enc) = Some euc_ex"
    by (simp_all add: server_enc_def server_ex_def grads_ex_def)
  have dsh: "shape dec_ex = [4, 2]" by (simp add: dec_ex_def)
  have esh: "shape euc_ex = [2, 4]" by (simp add: euc_ex_def)
  have dn: "4 = n_items server_enc \<or> 2 = n_items server_enc" by (simp add: n)
  have en: "use_enc_grad server_enc \<longrightarrow> 2 = n_items server_enc \<or> 4 = n_items server_enc"
    by (simp add: n)
  have dor: "dec_ex = (if 4 \<noteq> n_items server_enc then np_T dec_ex else dec_ex)"
    by (simp add: n)
  have eor: "np_T euc_ex = (if 2 \<noteq> n_items server_enc then np_T euc_ex else euc_ex)"
    by (simp add: n)
  have idx: "[1, 3] = nonzero_idx dec_ex" by (simp add: dec_ex_idx)
  have nz: "[[3, 4], [0, 1]] = nonzero_rows dec_ex" by (simp add: dec_ex_nz)
  have km: "kmeans_ex [[3, 4], [0, 1]] = [0, 1]" by (simp add: kmeans_ex_def)
  have len: "length [0, 1::nat] = length [[3, 4], [0, 1::real]]" by simp
  have lab: "set [0, 1::nat] \<subseteq> {0, 1}" by simp
  have c0: "cluster_of [[3, 4], [0, 1::real]] [0, 1] 0 = [[3, 4]]"
    and c1: "cluster_of [[3, 4], [0, 1::real]] [0, 1] 1 = [[0, 1]]"
    by (simp_all add: cluster_of_def)
  have ne0: "cluster_of [[3, 4], [0, 1::real]] [0, 1] 0 \<noteq> []" unfolding c0 by simp
  have ne1: "cluster_of [[3, 4], [0, 1::real]] [0, 1] 1 \<noteq> []" unfolding c1 by simp
  have m0: "mean_norm (cluster_of [[3, 4], [0, 1]] [0, 1] 0) = 5"
    unfolding c0 by (simp add: mean_norm_def l2_norm_def sqrt_25)
  have m1: "mean_norm (cluster_of [[3, 4], [0, 1]] [0, 1] 1) = 1"
    unfolding c1 by (simp add: mean_norm_def l2_norm_def)
  have dist: "mean_norm (cluster_of [[3, 4], [0, 1]] [0, 1] 1)
                \<noteq> mean_norm (cluster_of [[3, 4], [0, 1]] [0, 1] 0)"
    unfolding m0 m1 by simp
  have i0: "cluster_of [1, 3::nat] [0, 1] 0 = [1]" by (simp add: cluster_of_def)
  have "\<exists>x_pred. restore_user server_enc kmeans_ex grads_ex = Inr x_pred \<and>
           length x_pred = n_items server_enc \<and>
           (\<forall>i<n_items server_enc. x_pred ! i =
              (if i \<in> set (cluster_of [1, 3] [0, 1]
                             (if mean_norm (cluster_of [[3, 4], [0, 1]] [0, 1] 1)
                                   > mean_norm (cluster_of [[3, 4], [0, 1]] [0, 1] 0)
                              then 1 else 0))
                  \<or> use_enc_grad server_enc \<and> i \<in> set (nonzero_idx (np_T euc_ex))
               then 1 else 0))"
    by (rule restore_user_larger_norm[where kmeans = kmeans_ex,
          OF names dec enc dsh dn esh en dor eor idx nz km[symmetric] len lab ne0 ne1 dist])
  moreover have big: "(if mean_norm (cluster_of [[3, 4], [0, 1]] [0, 1] 1)
                                   > mean_norm (cluster_of [[3, 4], [0, 1]] [0, 1] 0)
                              then 1 else 0) = (0::nat)"
    unfolding m0 m1 by simp
  ultimately obtain x where x: "restore_user server_enc kmeans_ex grads_ex = Inr x"
    "length x = 4"
    "\<forall>i<4. x ! i = (if i \<in> set [1::nat] \<or> i \<in> set [0::nat] then 1 else 0)"
    unfolding big i0 euc_ex_idx n using u by auto
  have "x = [1, 1, 0, 0]"
    using list4[OF x(2)] x(3) by simp
  with x(1) names u n dec enc dsh esh km m0 m1 show ?thesis
    by (simp add: dec_ex_idx dec_ex_nz euc_ex_idx)
qed

text \<open>
  Without the amendment the statement of C4 fails when the encoder gradients are used.
  At the example the non-zero rows of the decoder gradient are split into two non-empty
  clusters of mean norms 5 and 1, and the cluster of larger norm is item 1 alone. Item 0
  has a zero decoder-gradient row, so it is excluded from the clustering and belongs to
  neither cluster, yet the attack labels it 1, because its encoder-gradient row sum is
  not zero.
\<close>

theorem restore_user_refinement_counterexample:
  "enc_name server_enc \<noteq> dec_name server_enc \<and> use_enc_grad server_enc \<and>
   nonzero_idx dec_ex = [1, 3] \<and> nonzero_rows dec_ex = [[3, 4], [0, 1]] \<and>
   kmeans_ex [[3, 4], [0, 1]] = [0, 1] \<and>
   cluster_of [[3, 4], [0, 1]] [0, 1] 0 = [[3, 4]] \<and>
   cluster_of [[3, 4], [0, 1]] [0, 1] 1 = [[0, 1]] \<and>
   mean_norm [[3, 4]] = 5 \<and> mean_norm [[0, 1]] = 1 \<and>
   cluster_of [1, 3] [0, 1] 0 = [1::nat] \<and>
   0 \<notin> set (nonzero_idx dec_ex) \<and>
   0 \<notin> set (cluster_of (nonzero_idx dec_ex) (kmeans_ex (nonzero_rows dec_ex)) 0) \<and>
   restore_user server_enc kmeans_ex grads_ex = Inr [1, 1, 0, 0]"
proof -
  have "enc_name server_enc \<noteq> dec_name server_enc" "use_enc_grad server_enc"
    by (simp_all add: server_enc_def server_ex_def)
  moreover have "mean_norm [[3, 4]] = 5" "mean_norm [[0, 1]] = 1"
    by (simp_all add: mean_norm_def l2_norm_def sqrt_25)
  ultimately show ?thesis
    by (simp add: dec_ex_idx dec_ex_nz kmeans_ex_def cluster_of_def
          restore_user_refined_example)
qed

end
